theory Spec2Isabelle
  imports Main "HOL-Library.Log_Nat"
begin

unbundle bit_operations_syntax

section \<open>Tags\<close>

text \<open>The enumeration \<open>TAGType\<close> and the class \<open>TAG\<close> of \<open>kytos/core/interface.py\<close>.
  The attribute \<open>value\<close> of a TAG is the field \<open>tag_value\<close> here.\<close>

datatype TAGType = VLAN | VLAN_QINQ | MPLS

record TAG =
  tag_type :: TAGType
  tag_value :: int

text \<open>\<open>TAG.__eq__\<close>: both attributes are compared.\<close>

definition TAG_eq :: "TAG \<Rightarrow> TAG \<Rightarrow> bool" where
  "TAG_eq self other \<longleftrightarrow> tag_type self = tag_type other \<and> tag_value self = tag_value other"

section \<open>Python values and exceptions\<close>

datatype py_error = IndexError | ValueError | OverflowError | ZeroDivisionError

text \<open>A Python float: a finite value (the two zeros are not told apart), an infinity
  or a NaN.\<close>

datatype pyfloat = Finite rat | PosInf | NegInf | NaN

datatype pynum = PyInt int | PyFloat pyfloat

datatype pyval =
    VNone
  | VBool bool
  | VNum pynum
  | VStr string
  | VTag TAG
  | VDict "(string \<times> pyval) list"

section \<open>The collaborators outside the file\<close>

text \<open>Modelled from the spec: the class \<open>Switch\<close> of \<open>kytos.core.switch\<close> is imported
  by the file. The spec asks of it a stable identifier (\<open>dpid\<close>, \<open>id\<close>), a connectivity
  flag (\<open>is_connected()\<close>) and, when connected, the negotiated protocol generation
  (\<open>connection.protocol.version\<close>, which may be unset).\<close>

record Switch =
  dpid :: string
  switch_id :: string
  is_connected :: bool
  protocol_version :: "int option"

text \<open>The bit masks of the two imported enumerations \<open>PortFeatures\<close> (of \<open>pyof.v0x01\<close> and
  of \<open>pyof.v0x04\<close>) that the file reads. They are parameters of the model.\<close>

record PortFeatures =
  OFPPF_10MB_HD :: int
  OFPPF_10MB_FD :: int
  OFPPF_100MB_HD :: int
  OFPPF_100MB_FD :: int
  OFPPF_1GB_HD :: int
  OFPPF_1GB_FD :: int
  OFPPF_10GB_FD :: int
  OFPPF_40GB_FD :: int
  OFPPF_100GB_FD :: int
  OFPPF_1TB_FD :: int

record pyof =
  PortFeatures01 :: PortFeatures
  PortFeatures04 :: PortFeatures

text \<open>The statistics object is used through its truth value and its \<open>as_dict()\<close> only.\<close>

record Stats =
  stats_truthy :: bool
  stats_as_dict :: "(string \<times> pyval) list"

section \<open>The class Interface\<close>

text \<open>Modelled from the spec: the base class \<open>GenericEntity\<close> of \<open>kytos.core.switch\<close> is
  imported by the file. The spec treats it as the generic entity with metadata, outside the
  core; of it the model keeps the attribute \<open>metadata\<close>, which \<open>as_dict\<close> renders, and
  an initialiser that touches no attribute of the Interface itself.\<close>

record Interface =
  name :: string
  port_number :: int
  switch :: Switch
  address :: "string option"
  state :: "int option"
  features :: "int option"
  nni :: bool
  endpoints :: "(string \<times> nat) list"
  stats :: "Stats option"
  custom_speed :: "pynum option"
  available_tags :: "TAG list"
  metadata :: "(string \<times> pyval) list"

text \<open>The loop of \<open>__init__\<close>: \<open>for i in range(1, 4096)\<close> appends \<open>TAG(TAGType.VLAN, i)\<close>.\<close>

definition init_tag_loop :: "TAG list \<Rightarrow> TAG list" where
  "init_tag_loop tags =
     foldl (\<lambda>acc i. acc @ [\<lparr>tag_type = VLAN, tag_value = int i\<rparr>]) tags [1..<4096]"

text \<open>\<open>Interface.__init__\<close>. The port number is given as an integer, on which \<open>int()\<close> is
  the identity. The last statement calls the initialiser of the base class, modelled as
  said above: it gives the Interface an empty metadata and changes nothing else.\<close>

definition Interface_init ::
  "string \<Rightarrow> int \<Rightarrow> Switch \<Rightarrow> string option \<Rightarrow> int option \<Rightarrow> int option \<Rightarrow> pynum option
     \<Rightarrow> Interface" where
  "Interface_init nm pn sw addr st fts spd =
     \<lparr>name = nm, port_number = pn, switch = sw, address = addr, state = st,
      features = fts, nni = False, endpoints = [], stats = None, custom_speed = spd,
      available_tags = init_tag_loop [], metadata = []\<rparr>"

subsection \<open>The tag pool\<close>

text \<open>\<open>list.remove(x)\<close>: the first entry equal to \<open>x\<close> is deleted, ValueError when there
  is none.\<close>

fun list_remove :: "TAG list \<Rightarrow> TAG \<Rightarrow> py_error + TAG list" where
  "list_remove [] x = Inl ValueError"
| "list_remove (y # ys) x =
     (if TAG_eq y x then Inr ys
      else (case list_remove ys x of Inl e \<Rightarrow> Inl e | Inr zs \<Rightarrow> Inr (y # zs)))"

text \<open>The loop of \<open>use_tag\<close> over the entries still to visit; \<open>pool\<close> is the whole list,
  from which the matching entry is removed.\<close>

fun use_tag_loop :: "TAG list \<Rightarrow> TAG \<Rightarrow> TAG list \<Rightarrow> py_error + (bool \<times> TAG list)" where
  "use_tag_loop pool tag [] = Inr (False, pool)"
| "use_tag_loop pool tag (available_tag # rest) =
     (if TAG_eq tag available_tag
      then (case list_remove pool available_tag of
              Inl e \<Rightarrow> Inl e
            | Inr pool' \<Rightarrow> Inr (True, pool'))
      else use_tag_loop pool tag rest)"

definition use_tag :: "Interface \<Rightarrow> TAG \<Rightarrow> py_error + (bool \<times> Interface)" where
  "use_tag self tag =
     (case use_tag_loop (available_tags self) tag (available_tags self) of
        Inl e \<Rightarrow> Inl e
      | Inr (r, pool') \<Rightarrow> Inr (r, self\<lparr>available_tags := pool'\<rparr>))"

text \<open>\<open>tag in self.available_tags\<close>: each entry is compared with the tag.\<close>

definition is_tag_available :: "Interface \<Rightarrow> TAG \<Rightarrow> bool" where
  "is_tag_available self tag \<longleftrightarrow> list_ex (\<lambda>t. TAG_eq t tag) (available_tags self)"

text \<open>\<open>list.pop()\<close>: the last entry, IndexError on the empty list.\<close>

definition list_pop :: "TAG list \<Rightarrow> py_error + (TAG \<times> TAG list)" where
  "list_pop xs = (if xs = [] then Inl IndexError else Inr (last xs, butlast xs))"

text \<open>\<open>get_next_available_tag\<close>: the IndexError of \<open>pop\<close> is caught and \<open>False\<close> is
  returned.\<close>

definition get_next_available_tag :: "Interface \<Rightarrow> pyval \<times> Interface" where
  "get_next_available_tag self =
     (case list_pop (available_tags self) of
        Inr (t, pool') \<Rightarrow> (VTag t, self\<lparr>available_tags := pool'\<rparr>)
      | Inl e \<Rightarrow> (VBool False, self))"

text \<open>\<open>make_tag_available\<close>: the tag is appended when it is not there (the method then
  returns \<open>None\<close>), otherwise \<open>False\<close> is returned.\<close>

definition make_tag_available :: "Interface \<Rightarrow> TAG \<Rightarrow> pyval \<times> Interface" where
  "make_tag_available self tag =
     (if \<not> is_tag_available self tag
      then (VNone, self\<lparr>available_tags := available_tags self @ [tag]\<rparr>)
      else (VBool False, self))"

subsection \<open>Python numbers\<close>

text \<open>Powers of two with an integer exponent.\<close>

definition pow2 :: "int \<Rightarrow> rat" where
  "pow2 e = (if 0 \<le> e then 2 ^ nat e else 1 / 2 ^ nat (- e))"

text \<open>The exponent of a positive rational: the greatest \<open>e\<close> with \<open>2 ^ e \<le> q\<close>.\<close>

definition floor_log2 :: "rat \<Rightarrow> int" where
  "floor_log2 q = (if 1 \<le> q then bitlen \<lfloor>q\<rfloor> - 1 else - bitlen (\<lceil>1 / q\<rceil> - 1))"

text \<open>Rounding to the nearest integer, a tie going to the even one: what \<open>round(x)\<close>
  does on a float, and what float arithmetic does on the significand.\<close>

definition round_half_even :: "rat \<Rightarrow> int" where
  "round_half_even x =
     (let f = \<lfloor>x\<rfloor>; d = x - of_int f
      in if d < 1 / 2 then f else if 1 / 2 < d then f + 1 else if even f then f else f + 1)"

text \<open>The binary64 value nearest to a rational, a tie going to the even significand:
  53 significant bits, least exponent -1022; the significand \<open>m\<close> is counted in units
  of \<open>2 ^ (e - 52)\<close>, and the result is an infinity when the rounded value reaches
  \<open>2 ^ 1024\<close>.\<close>

definition binary64 :: "rat \<Rightarrow> pyfloat" where
  "binary64 q =
     (if q = 0 then Finite 0
      else let a = \<bar>q\<bar>;
               e = max (floor_log2 a) (- 1022);
               u = pow2 (e - 52);
               m = round_half_even (a / u)
           in if 1024 \<le> e \<or> (e = 1023 \<and> 2 ^ 53 \<le> m)
              then (if 0 < q then PosInf else NegInf)
              else Finite (if 0 < q then of_int m * u else - (of_int m * u)))"

text \<open>\<open>float(n)\<close> of an integer, as the mixed operations do it.\<close>

definition int_to_float :: "int \<Rightarrow> py_error + pyfloat" where
  "int_to_float n =
     (case binary64 (of_int n) of Finite q \<Rightarrow> Inr (Finite q) | _ \<Rightarrow> Inl OverflowError)"

text \<open>\<open>a / b\<close> on two integers: the correctly rounded quotient.\<close>

definition int_truediv :: "int \<Rightarrow> int \<Rightarrow> py_error + pyfloat" where
  "int_truediv a b =
     (if b = 0 then Inl ZeroDivisionError
      else (case binary64 (of_int a / of_int b) of
              Finite q \<Rightarrow> Inr (Finite q)
            | _ \<Rightarrow> Inl OverflowError))"

fun fsign :: "pyfloat \<Rightarrow> int" where
  "fsign (Finite q) = (if q = 0 then 0 else if 0 < q then 1 else - 1)"
| "fsign PosInf = 1"
| "fsign NegInf = - 1"
| "fsign NaN = 0"

definition float_mul :: "pyfloat \<Rightarrow> pyfloat \<Rightarrow> pyfloat" where
  "float_mul x y =
     (if x = NaN \<or> y = NaN then NaN
      else (case (x, y) of
              (Finite a, Finite b) \<Rightarrow> binary64 (a * b)
            | _ \<Rightarrow> (let s = fsign x * fsign y
                    in if s = 0 then NaN else if 0 < s then PosInf else NegInf)))"

definition float_truediv :: "pyfloat \<Rightarrow> pyfloat \<Rightarrow> py_error + pyfloat" where
  "float_truediv x y =
     (if y = Finite 0 then Inl ZeroDivisionError
      else if x = NaN \<or> y = NaN then Inr NaN
      else (case (x, y) of
              (Finite a, Finite b) \<Rightarrow> Inr (binary64 (a / b))
            | (Finite a, _) \<Rightarrow> Inr (Finite 0)
            | (_, Finite b) \<Rightarrow> Inr (if 0 < fsign x * fsign y then PosInf else NegInf)
            | _ \<Rightarrow> Inr NaN))"

definition bind_err :: "py_error + 'a \<Rightarrow> ('a \<Rightarrow> py_error + 'b) \<Rightarrow> py_error + 'b" where
  "bind_err m f = (case m of Inl e \<Rightarrow> Inl e | Inr x \<Rightarrow> f x)"

text \<open>The operations of \<open>get_hr_speed\<close> on a number, the right operand an integer.\<close>

fun py_mul :: "pynum \<Rightarrow> int \<Rightarrow> py_error + pynum" where
  "py_mul (PyInt n) k = Inr (PyInt (n * k))"
| "py_mul (PyFloat x) k = bind_err (int_to_float k) (\<lambda>y. Inr (PyFloat (float_mul x y)))"

fun py_eq :: "pynum \<Rightarrow> int \<Rightarrow> bool" where
  "py_eq (PyInt n) k \<longleftrightarrow> n = k"
| "py_eq (PyFloat (Finite q)) k \<longleftrightarrow> q = of_int k"
| "py_eq (PyFloat _) k \<longleftrightarrow> False"

fun py_ge :: "pynum \<Rightarrow> int \<Rightarrow> bool" where
  "py_ge (PyInt n) k \<longleftrightarrow> k \<le> n"
| "py_ge (PyFloat (Finite q)) k \<longleftrightarrow> of_int k \<le> q"
| "py_ge (PyFloat PosInf) k \<longleftrightarrow> True"
| "py_ge (PyFloat _) k \<longleftrightarrow> False"

fun py_truediv :: "pynum \<Rightarrow> int \<Rightarrow> py_error + pyfloat" where
  "py_truediv (PyInt n) k = int_truediv n k"
| "py_truediv (PyFloat x) k = bind_err (int_to_float k) (float_truediv x)"

text \<open>\<open>round(x)\<close> on a float: an integer, OverflowError on an infinity, ValueError on a
  NaN.\<close>

fun py_round :: "pyfloat \<Rightarrow> py_error + int" where
  "py_round (Finite q) = Inr (round_half_even q)"
| "py_round NaN = Inl ValueError"
| "py_round _ = Inl OverflowError"

text \<open>\<open>'{}'.format(n)\<close> on an integer: its decimal digits.\<close>

definition digit_char :: "nat \<Rightarrow> char" where
  "digit_char d = ''0123456789'' ! d"

function str_nat :: "nat \<Rightarrow> string" where
  "str_nat n = (if n < 10 then [digit_char n] else str_nat (n div 10) @ [digit_char (n mod 10)])"
  by pat_completeness auto
termination
  by (relation "measure id") auto

definition str_int :: "int \<Rightarrow> string" where
  "str_int i = (if i < 0 then CHR ''-'' # str_nat (nat (- i)) else str_nat (nat i))"

subsection \<open>Identity\<close>

text \<open>What \<open>__eq__\<close> may be compared with: a string, an Interface, anything else.\<close>

datatype pyobj = OStr string | OInterface Interface | OOther pyval

definition Interface_eq :: "Interface \<Rightarrow> pyobj \<Rightarrow> bool" where
  "Interface_eq self other =
     (case other of
        OStr s \<Rightarrow> address self = Some s
      | OInterface other' \<Rightarrow>
          port_number self = port_number other' \<and>
          name self = name other' \<and>
          address self = address other' \<and>
          dpid (switch self) = dpid (switch other')
      | OOther _ \<Rightarrow> False)"

definition interface_id :: "Interface \<Rightarrow> string" where
  "interface_id self = dpid (switch self) @ '':'' @ str_int (port_number self)"

definition uni :: "Interface \<Rightarrow> bool" where
  "uni self \<longleftrightarrow> \<not> nni self"

subsection \<open>Speed\<close>

text \<open>What \<open>LOG.warning\<close> is given when the speed is unknown.\<close>

record warning =
  w_port_number :: int
  w_switch_id :: string
  w_features :: "int option"

definition set_custom_speed :: "Interface \<Rightarrow> pynum option \<Rightarrow> Interface" where
  "set_custom_speed self bytes_per_second = self\<lparr>custom_speed := bytes_per_second\<rparr>"

definition get_custom_speed :: "Interface \<Rightarrow> pynum option" where
  "get_custom_speed self = custom_speed self"

definition is_v0x04 :: "Interface \<Rightarrow> bool" where
  "is_v0x04 self \<longleftrightarrow>
     is_connected (switch self) \<and> protocol_version (switch self) = Some 4"

text \<open>The test \<open>fts and fts & mask\<close>: false on \<open>None\<close> and on 0, otherwise whether one of
  the bits is set.\<close>

definition feature_set :: "int option \<Rightarrow> int \<Rightarrow> bool" where
  "feature_set fts bits =
     (case fts of None \<Rightarrow> False | Some f \<Rightarrow> f \<noteq> 0 \<and> f AND bits \<noteq> 0)"

text \<open>\<open>return a / 8\<close>.\<close>

definition return_div :: "int \<Rightarrow> int \<Rightarrow> py_error + pynum option" where
  "return_div a b = bind_err (int_truediv a b) (\<lambda>x. Inr (Some (PyFloat x)))"

definition get_v0x01_v0x04_speed :: "pyof \<Rightarrow> Interface \<Rightarrow> py_error + pynum option" where
  "get_v0x01_v0x04_speed env self =
     (let fts = features self; pfts = PortFeatures01 env
      in if feature_set fts (OFPPF_10GB_FD pfts) then return_div (10 * 10 ^ 9) 8
         else if feature_set fts (OFPPF_1GB_HD pfts OR OFPPF_1GB_FD pfts)
           then return_div (10 ^ 9) 8
         else if feature_set fts (OFPPF_100MB_HD pfts OR OFPPF_100MB_FD pfts)
           then return_div (100 * 10 ^ 6) 8
         else if feature_set fts (OFPPF_10MB_HD pfts OR OFPPF_10MB_FD pfts)
           then return_div (10 * 10 ^ 6) 8
         else Inr None)"

definition get_v0x04_speed :: "pyof \<Rightarrow> Interface \<Rightarrow> py_error + pynum option" where
  "get_v0x04_speed env self =
     (let fts = features self; pfts = PortFeatures04 env
      in if feature_set fts (OFPPF_1TB_FD pfts) then return_div (10 ^ 12) 8
         else if feature_set fts (OFPPF_100GB_FD pfts) then return_div (100 * 10 ^ 9) 8
         else if feature_set fts (OFPPF_40GB_FD pfts) then return_div (40 * 10 ^ 9) 8
         else Inr None)"

definition unknown_speed_warning :: "Interface \<Rightarrow> warning" where
  "unknown_speed_warning self =
     (let sid = switch_id (switch self);
          short = (if 20 < length sid
                   then take 3 sid @ ''...'' @ drop (length sid - 3) sid else sid)
      in \<lparr>w_port_number = port_number self, w_switch_id = short,
          w_features = features self\<rparr>)"

text \<open>\<open>get_of_features_speed\<close>: the speed and the warnings logged.\<close>

definition get_of_features_speed ::
  "pyof \<Rightarrow> Interface \<Rightarrow> py_error + (pynum option \<times> warning list)" where
  "get_of_features_speed env self =
     bind_err (get_v0x01_v0x04_speed env self) (\<lambda>speed0.
     bind_err (if speed0 = None \<and> is_v0x04 self then get_v0x04_speed env self
               else Inr speed0) (\<lambda>speed1.
       if speed1 \<noteq> None then Inr (speed1, [])
       else Inr (None, [unknown_speed_warning self])))"

text \<open>The property \<open>speed\<close>.\<close>

definition speed :: "pyof \<Rightarrow> Interface \<Rightarrow> py_error + (pynum option \<times> warning list)" where
  "speed env self =
     (if custom_speed self \<noteq> None then Inr (custom_speed self, [])
      else get_of_features_speed env self)"

definition get_hr_speed :: "pyof \<Rightarrow> Interface \<Rightarrow> py_error + (string \<times> warning list)" where
  "get_hr_speed env self =
     bind_err (speed env self) (\<lambda>(spd, w).
       case spd of
         None \<Rightarrow> Inr ([], w)
       | Some v \<Rightarrow>
           bind_err (py_mul v 8) (\<lambda>s.
             if py_eq s (10 ^ 12) then Inr (''1 Tbps'', w)
             else if py_ge s (10 ^ 9)
               then bind_err (py_truediv s (10 ^ 9)) (\<lambda>q.
                    bind_err (py_round q) (\<lambda>n. Inr (str_int n @ '' Gbps'', w)))
             else bind_err (py_truediv s (10 ^ 6)) (\<lambda>q.
                  bind_err (py_round q) (\<lambda>n. Inr (str_int n @ '' Mbps'', w)))))"

definition as_dict ::
  "pyof \<Rightarrow> Interface \<Rightarrow> py_error + ((string \<times> pyval) list \<times> warning list)" where
  "as_dict env self =
     bind_err (speed env self) (\<lambda>(spd, w).
       let iface_dict =
             [(''id'', VStr (interface_id self)),
              (''name'', VStr (name self)),
              (''port_number'', VNum (PyInt (port_number self))),
              (''mac'', (case address self of None \<Rightarrow> VNone | Some a \<Rightarrow> VStr a)),
              (''switch'', VStr (dpid (switch self))),
              (''type'', VStr ''interface''),
              (''nni'', VBool (nni self)),
              (''uni'', VBool (uni self)),
              (''speed'', (case spd of None \<Rightarrow> VNone | Some v \<Rightarrow> VNum v)),
              (''metadata'', VDict (metadata self))]
       in case stats self of
            None \<Rightarrow> Inr (iface_dict, w)
          | Some st \<Rightarrow>
              if stats_truthy st
              then Inr (iface_dict @ [(''stats'', VDict (stats_as_dict st))], w)
              else Inr (iface_dict, w))"

subsection \<open>Properties stated of the model, and example values\<close>

text \<open>No two entries of a pool are equal under \<open>TAG.__eq__\<close>.\<close>

fun no_equal_entries :: "TAG list \<Rightarrow> bool" where
  "no_equal_entries [] \<longleftrightarrow> True"
| "no_equal_entries (x # xs) \<longleftrightarrow> \<not> list_ex (TAG_eq x) xs \<and> no_equal_entries xs"

text \<open>The interfaces that a fresh one becomes under the three pool operations.\<close>

inductive reachable :: "Interface \<Rightarrow> bool" where
  fresh: "reachable (Interface_init nm pn sw addr st fts spd)"
| after_use_tag: "reachable i \<Longrightarrow> use_tag i t = Inr (r, i') \<Longrightarrow> reachable i'"
| after_get_next: "reachable i \<Longrightarrow> reachable (snd (get_next_available_tag i))"
| after_make_available: "reachable i \<Longrightarrow> reachable (snd (make_tag_available i t))"

text \<open>Example values: a switch that is not connected, an Interface on it, and two tags.\<close>

definition sw0 :: Switch where
  "sw0 = \<lparr>dpid = ''00:00:00:00:00:00:00:01'', switch_id = ''00:00:00:00:00:00:00:01'',
          is_connected = False, protocol_version = None\<rparr>"

definition iface0 :: Interface where
  "iface0 = Interface_init ''eth0'' 2 sw0 None None None None"

definition tag8 :: TAG where
  "tag8 = \<lparr>tag_type = VLAN, tag_value = 8\<rparr>"

definition tag7 :: TAG where
  "tag7 = \<lparr>tag_type = VLAN, tag_value = 7\<rparr>"

text \<open>The bits of the first tier of speeds, read in the enumeration of \<open>pyof.v0x01\<close>.\<close>

definition tier_a_bits :: "PortFeatures \<Rightarrow> int" where
  "tier_a_bits p =
     OFPPF_10GB_FD p OR (OFPPF_1GB_HD p OR OFPPF_1GB_FD p) OR
     (OFPPF_100MB_HD p OR OFPPF_100MB_FD p) OR (OFPPF_10MB_HD p OR OFPPF_10MB_FD p)"

text \<open>More example values: the two enumerations with the bit positions of OpenFlow 1.0
  and 1.3 (the three bits that version 1.0 does not have are never read from the first
  one), a switch connected with version 4, and a hardware address.\<close>

definition pf01 :: PortFeatures where
  "pf01 = \<lparr>OFPPF_10MB_HD = 1, OFPPF_10MB_FD = 2, OFPPF_100MB_HD = 4, OFPPF_100MB_FD = 8,
     OFPPF_1GB_HD = 16, OFPPF_1GB_FD = 32, OFPPF_10GB_FD = 64, OFPPF_40GB_FD = 0,
     OFPPF_100GB_FD = 0, OFPPF_1TB_FD = 0\<rparr>"

definition pf04 :: PortFeatures where
  "pf04 = \<lparr>OFPPF_10MB_HD = 1, OFPPF_10MB_FD = 2, OFPPF_100MB_HD = 4, OFPPF_100MB_FD = 8,
     OFPPF_1GB_HD = 16, OFPPF_1GB_FD = 32, OFPPF_10GB_FD = 64, OFPPF_40GB_FD = 128,
     OFPPF_100GB_FD = 256, OFPPF_1TB_FD = 512\<rparr>"

definition sw4 :: Switch where
  "sw4 = sw0\<lparr>is_connected := True, protocol_version := Some 4\<rparr>"

definition mac0 :: string where
  "mac0 = ''00:11:22:33:44:55''"

definition env0 :: pyof where
  "env0 = \<lparr>PortFeatures01 = pf01, PortFeatures04 = pf04\<rparr>"

text \<open>The rendering of a speed in bytes per second as the specification words it, over
  exact arithmetic: times 8, then \<open>1 Tbps\<close> at exactly \<open>10 ^ 12\<close>, the nearest integer of
  Gbps from \<open>10 ^ 9\<close> on, the nearest integer of Mbps below; a tie goes to the even
  integer.\<close>

definition hr_speed_spec :: "rat \<Rightarrow> string" where
  "hr_speed_spec v =
     (let s = v * 8
      in if s = 10 ^ 12 then ''1 Tbps''
         else if 10 ^ 9 \<le> s then str_int (round_half_even (s / 10 ^ 9)) @ '' Gbps''
         else str_int (round_half_even (s / 10 ^ 6)) @ '' Mbps'')"

section \<open>Facts about the tag pool\<close>

lemma TAG_eq_iff: "TAG_eq a b \<longleftrightarrow> a = b"
  by (cases a, cases b) (auto simp: TAG_eq_def)

lemma append_loop: "foldl (\<lambda>acc i. acc @ [f i]) acc xs = acc @ map f xs"
  by (induction xs arbitrary: acc) simp_all

lemma init_tag_loop_eq:
  "init_tag_loop [] = map (\<lambda>i. \<lparr>tag_type = VLAN, tag_value = int i\<rparr>) [1..<4096]"
  unfolding init_tag_loop_def by (simp only: append_loop append_Nil)

lemma no_equal_entries_iff: "no_equal_entries xs \<longleftrightarrow> distinct xs"
  by (induction xs) (auto simp: list_ex_iff TAG_eq_iff)

lemma list_remove_eq:
  "list_remove xs x = (if x \<in> set xs then Inr (remove1 x xs) else Inl ValueError)"
  by (induction xs) (auto simp: TAG_eq_iff)

lemma use_tag_loop_eq:
  "set rest \<subseteq> set pool \<Longrightarrow>
   use_tag_loop pool tag rest =
     (if tag \<in> set rest then Inr (True, remove1 tag pool) else Inr (False, pool))"
  by (induction rest) (auto simp: TAG_eq_iff list_remove_eq)

lemma use_tag_eq:
  "use_tag i t =
     (if t \<in> set (available_tags i)
      then Inr (True, i\<lparr>available_tags := remove1 t (available_tags i)\<rparr>)
      else Inr (False, i))"
  by (simp add: use_tag_def use_tag_loop_eq)

lemma is_tag_available_iff: "is_tag_available i t \<longleftrightarrow> t \<in> set (available_tags i)"
  by (auto simp: is_tag_available_def list_ex_iff TAG_eq_iff)

lemma get_next_nonempty:
  "available_tags i \<noteq> [] \<Longrightarrow>
   get_next_available_tag i =
     (VTag (last (available_tags i)), i\<lparr>available_tags := butlast (available_tags i)\<rparr>)"
  by (simp add: get_next_available_tag_def list_pop_def)

lemma get_next_empty:
  "available_tags i = [] \<Longrightarrow> get_next_available_tag i = (VBool False, i)"
  by (simp add: get_next_available_tag_def list_pop_def)

lemma fresh_pool:
  "available_tags (Interface_init nm pn sw addr st fts spd) =
     map (\<lambda>i. \<lparr>tag_type = VLAN, tag_value = int i\<rparr>) [1..<4096]"
  by (simp only: Interface_init_def init_tag_loop_eq Interface.simps)

lemma inj_vlan: "inj (\<lambda>i. \<lparr>tag_type = VLAN, tag_value = int i\<rparr>)"
  by (rule injI) simp

lemma fresh_distinct: "distinct (available_tags (Interface_init nm pn sw addr st fts spd))"
  unfolding fresh_pool by (simp only: distinct_map distinct_upt) (simp add: inj_on_def)

lemma fresh_set:
  "set (available_tags (Interface_init nm pn sw addr st fts spd)) =
     {t. tag_type t = VLAN \<and> 1 \<le> tag_value t \<and> tag_value t \<le> 4095}"
proof -
  have "(\<lambda>i. \<lparr>tag_type = VLAN, tag_value = int i\<rparr>) ` {1..<4096} =
        {t. tag_type t = VLAN \<and> 1 \<le> tag_value t \<and> tag_value t \<le> 4095}" (is "?f ` _ = ?R")
  proof (intro set_eqI iffI)
    fix t assume "t \<in> ?f ` {1..<4096}"
    then show "t \<in> ?R" by auto
  next
    fix t assume t: "t \<in> ?R"
    then have "t = ?f (nat (tag_value t))" by (cases t) auto
    moreover have "nat (tag_value t) \<in> {1..<4096}" using t by auto
    ultimately show "t \<in> ?f ` {1..<4096}" by (rule image_eqI)
  qed
  then show ?thesis unfolding fresh_pool by (simp only: set_map set_upt)
qed

lemma preserve_distinct:
  "distinct (available_tags i) \<Longrightarrow> use_tag i t = Inr (r, i') \<Longrightarrow> distinct (available_tags i')"
  "distinct (available_tags i) \<Longrightarrow> distinct (available_tags (snd (get_next_available_tag i)))"
  "distinct (available_tags i) \<Longrightarrow> distinct (available_tags (snd (make_tag_available i t)))"
  by (auto simp: use_tag_eq get_next_available_tag_def list_pop_def make_tag_available_def
      is_tag_available_iff distinct_butlast split: if_splits)

lemma reachable_distinct: "reachable i \<Longrightarrow> distinct (available_tags i)"
proof (induction rule: reachable.induct)
  case (fresh nm pn sw addr st fts spd)
  show ?case by (rule fresh_distinct)
next
  case (after_use_tag i t r i')
  then show ?case by (simp only: preserve_distinct(1))
next
  case (after_get_next i)
  then show ?case by (simp only: preserve_distinct(2))
next
  case (after_make_available i t)
  then show ?case by (simp only: preserve_distinct(3))
qed

text \<open>Claim C1. Whatever the name, port number, switch and other arguments, the pool of
  a freshly constructed Interface is the list of the tags \<open>TAG(VLAN, v)\<close> for
  \<open>v = 1, ..., 4095\<close> in this order: it has 4095 entries, no two of them equal, its
  entries are exactly the VLAN tags with a value from 1 to 4095, and the values ascend.\<close>
theorem fresh_interface_pool:
  "available_tags (Interface_init nm pn sw addr st fts spd) =
     map (\<lambda>i. \<lparr>tag_type = VLAN, tag_value = int i\<rparr>) [1..<4096]
   \<and> length (available_tags (Interface_init nm pn sw addr st fts spd)) = 4095
   \<and> no_equal_entries (available_tags (Interface_init nm pn sw addr st fts spd))
   \<and> set (available_tags (Interface_init nm pn sw addr st fts spd)) =
       {t. tag_type t = VLAN \<and> 1 \<le> tag_value t \<and> tag_value t \<le> 4095}
   \<and> sorted_wrt (\<lambda>a b. tag_value a < tag_value b)
       (available_tags (Interface_init nm pn sw addr st fts spd))"
proof (intro conjI)
  show "available_tags (Interface_init nm pn sw addr st fts spd) =
     map (\<lambda>i. \<lparr>tag_type = VLAN, tag_value = int i\<rparr>) [1..<4096]" by (rule fresh_pool)
  show "length (available_tags (Interface_init nm pn sw addr st fts spd)) = 4095"
    unfolding fresh_pool by (simp only: length_map length_upt)
  show "no_equal_entries (available_tags (Interface_init nm pn sw addr st fts spd))"
    by (simp only: no_equal_entries_iff fresh_distinct)
  show "set (available_tags (Interface_init nm pn sw addr st fts spd)) =
       {t. tag_type t = VLAN \<and> 1 \<le> tag_value t \<and> tag_value t \<le> 4095}" by (rule fresh_set)
  show "sorted_wrt (\<lambda>a b. tag_value a < tag_value b)
       (available_tags (Interface_init nm pn sw addr st fts spd))"
    unfolding fresh_pool by (simp only: sorted_wrt_map) (simp add: sorted_wrt_upt)
qed

text \<open>Claim C2. On a non-empty pool \<open>get_next_available_tag\<close> returns the last entry
  of the list and removes it. Entries only ever enter the pool at its end, so this is the
  most recently inserted tag that remains: a tag just made available is the next one
  returned, also after a different tag has been taken with \<open>use_tag\<close> in between. The
  first call on a fresh Interface returns \<open>TAG(VLAN, 4095)\<close> and leaves 4094 entries.\<close>
theorem get_next_available_tag_lifo:
  "(available_tags i \<noteq> [] \<longrightarrow>
      get_next_available_tag i =
        (VTag (last (available_tags i)), i\<lparr>available_tags := butlast (available_tags i)\<rparr>))
   \<and> (\<not> is_tag_available i t \<longrightarrow>
      get_next_available_tag (snd (make_tag_available i t)) = (VTag t, i))
   \<and> (\<not> is_tag_available i t \<and> \<not> TAG_eq u t \<and> use_tag (snd (make_tag_available i t)) u = Inr (r, i') \<longrightarrow>
      fst (get_next_available_tag i') = VTag t)
   \<and> fst (get_next_available_tag (Interface_init nm pn sw addr st fts spd)) =
        VTag \<lparr>tag_type = VLAN, tag_value = 4095\<rparr>
   \<and> length (available_tags (snd (get_next_available_tag
        (Interface_init nm pn sw addr st fts spd)))) = 4094"
proof (intro conjI impI)
  assume "available_tags i \<noteq> []"
  then show "get_next_available_tag i =
        (VTag (last (available_tags i)), i\<lparr>available_tags := butlast (available_tags i)\<rparr>)"
    by (rule get_next_nonempty)
next
  assume "\<not> is_tag_available i t"
  then show "get_next_available_tag (snd (make_tag_available i t)) = (VTag t, i)"
    by (simp add: make_tag_available_def get_next_available_tag_def list_pop_def)
next
  assume a: "\<not> is_tag_available i t \<and> \<not> TAG_eq u t \<and>
    use_tag (snd (make_tag_available i t)) u = Inr (r, i')"
  then have p: "available_tags (snd (make_tag_available i t)) = available_tags i @ [t]"
    by (simp add: make_tag_available_def)
  from a have ne: "u \<noteq> t" by (simp add: TAG_eq_iff)
  have "available_tags i' = remove1 u (available_tags i) @ [t] \<or>
        available_tags i' = available_tags i @ [t]"
    using a ne by (auto simp: use_tag_eq p remove1_append split: if_splits)
  then show "fst (get_next_available_tag i') = VTag t"
    by (auto simp: get_next_available_tag_def list_pop_def)
next
  let ?I = "Interface_init nm pn sw addr st fts spd"
  have ne: "available_tags ?I \<noteq> []"
    unfolding fresh_pool by (simp only: map_is_Nil_conv upt_eq_Nil_conv) simp
  have l: "last (available_tags ?I) = \<lparr>tag_type = VLAN, tag_value = 4095\<rparr>"
    unfolding fresh_pool by (simp add: last_map)
  show "fst (get_next_available_tag ?I) = VTag \<lparr>tag_type = VLAN, tag_value = 4095\<rparr>"
    by (simp only: get_next_nonempty[OF ne] l fst_conv)
  show "length (available_tags (snd (get_next_available_tag ?I))) = 4094"
    unfolding get_next_nonempty[OF ne] by (simp add: fresh_pool)
qed

theorem get_next_available_tag_lifo_witness:
  "available_tags (iface0\<lparr>available_tags := [tag7]\<rparr>) \<noteq> []
   \<and> get_next_available_tag (iface0\<lparr>available_tags := [tag7]\<rparr>) =
       (VTag tag7, iface0\<lparr>available_tags := []\<rparr>)
   \<and> \<not> is_tag_available (iface0\<lparr>available_tags := [tag7]\<rparr>) tag8
   \<and> get_next_available_tag (snd (make_tag_available (iface0\<lparr>available_tags := [tag7]\<rparr>) tag8)) =
       (VTag tag8, iface0\<lparr>available_tags := [tag7]\<rparr>)
   \<and> \<not> TAG_eq tag7 tag8
   \<and> use_tag (snd (make_tag_available (iface0\<lparr>available_tags := [tag7]\<rparr>) tag8)) tag7 =
       Inr (True, iface0\<lparr>available_tags := [tag8]\<rparr>)
   \<and> fst (get_next_available_tag (iface0\<lparr>available_tags := [tag8]\<rparr>)) = VTag tag8"
proof -
  have a: "\<not> is_tag_available (iface0\<lparr>available_tags := [tag7]\<rparr>) tag8"
    by (simp add: is_tag_available_def TAG_eq_def tag7_def tag8_def)
  have b: "\<not> TAG_eq tag7 tag8" by (simp add: TAG_eq_def tag7_def tag8_def)
  have c: "use_tag (snd (make_tag_available (iface0\<lparr>available_tags := [tag7]\<rparr>) tag8)) tag7 =
       Inr (True, iface0\<lparr>available_tags := [tag8]\<rparr>)"
    using a by (simp add: make_tag_available_def use_tag_def TAG_eq_def tag7_def tag8_def)
  show ?thesis
    using get_next_available_tag_lifo
      [of "iface0\<lparr>available_tags := [tag7]\<rparr>" tag8 tag7 True
          "iface0\<lparr>available_tags := [tag8]\<rparr>"] a b c
    by simp
qed

text \<open>Claim C5. The pool never holds two equal tags: the fresh pool has none, each of
  \<open>use_tag\<close>, \<open>get_next_available_tag\<close> and \<open>make_tag_available\<close> keeps it so, hence
  every pool reachable from a fresh one has none; and \<open>make_tag_available\<close> on a tag that
  is already in the pool returns \<open>False\<close> and leaves the Interface as it was.\<close>
theorem pool_never_holds_equal_tags:
  "no_equal_entries (available_tags (Interface_init nm pn sw addr st fts spd))
   \<and> (no_equal_entries (available_tags i) \<and> use_tag i t = Inr (r, i') \<longrightarrow>
        no_equal_entries (available_tags i'))
   \<and> (no_equal_entries (available_tags i) \<longrightarrow>
        no_equal_entries (available_tags (snd (get_next_available_tag i))))
   \<and> (no_equal_entries (available_tags i) \<longrightarrow>
        no_equal_entries (available_tags (snd (make_tag_available i t))))
   \<and> (reachable j \<longrightarrow> no_equal_entries (available_tags j))
   \<and> (list_ex (\<lambda>a. TAG_eq a t) (available_tags i) \<longrightarrow>
        make_tag_available i t = (VBool False, i))"
  unfolding no_equal_entries_iff
proof (intro conjI impI)
  show "distinct (available_tags (Interface_init nm pn sw addr st fts spd))"
    by (rule fresh_distinct)
  show "distinct (available_tags i')"
    if "distinct (available_tags i) \<and> use_tag i t = Inr (r, i')"
    using that preserve_distinct(1) by blast
  show "distinct (available_tags (snd (get_next_available_tag i)))"
    if "distinct (available_tags i)" using that by (rule preserve_distinct(2))
  show "distinct (available_tags (snd (make_tag_available i t)))"
    if "distinct (available_tags i)" using that by (rule preserve_distinct(3))
  show "distinct (available_tags j)" if "reachable j" using that by (rule reachable_distinct)
  show "make_tag_available i t = (VBool False, i)"
    if "list_ex (\<lambda>a. TAG_eq a t) (available_tags i)"
    using that by (simp add: make_tag_available_def is_tag_available_def)
qed

lemma tag7_fresh: "tag7 \<in> set (available_tags (Interface_init nm pn sw addr st fts spd))"
  unfolding fresh_set by (simp add: tag7_def)

theorem pool_never_holds_equal_tags_witness:
  "no_equal_entries (available_tags (Interface_init ''eth0'' 2 sw0 None None None None))
   \<and> use_tag (Interface_init ''eth0'' 2 sw0 None None None None) tag7 =
       Inr (True, (Interface_init ''eth0'' 2 sw0 None None None None)
         \<lparr>available_tags :=
            remove1 tag7 (available_tags (Interface_init ''eth0'' 2 sw0 None None None None))\<rparr>)
   \<and> no_equal_entries (remove1 tag7
         (available_tags (Interface_init ''eth0'' 2 sw0 None None None None)))
   \<and> no_equal_entries (available_tags (snd (get_next_available_tag
         (Interface_init ''eth0'' 2 sw0 None None None None))))
   \<and> no_equal_entries (available_tags (snd (make_tag_available
         (Interface_init ''eth0'' 2 sw0 None None None None) tag7)))
   \<and> reachable (Interface_init ''eth0'' 2 sw0 None None None None)
   \<and> list_ex (\<lambda>a. TAG_eq a tag7)
         (available_tags (Interface_init ''eth0'' 2 sw0 None None None None))
   \<and> make_tag_available (Interface_init ''eth0'' 2 sw0 None None None None) tag7 =
       (VBool False, Interface_init ''eth0'' 2 sw0 None None None None)"
proof -
  let ?I = "Interface_init ''eth0'' 2 sw0 None None None None"
  let ?I' = "?I\<lparr>available_tags := remove1 tag7 (available_tags ?I)\<rparr>"
  have u: "use_tag ?I tag7 = Inr (True, ?I')"
    by (simp only: use_tag_eq tag7_fresh if_True)
  have r: "reachable ?I" by (rule reachable.fresh)
  have m: "list_ex (\<lambda>a. TAG_eq a tag7) (available_tags ?I)"
    using tag7_fresh[of "''eth0''" 2 sw0 None None None None]
    by (simp only: list_ex_iff TAG_eq_iff) blast
  note th = pool_never_holds_equal_tags[of "''eth0''" 2 sw0 None None None None ?I tag7 True ?I' ?I]
  from th have f: "no_equal_entries (available_tags ?I)" by blast
  from th f u have a: "no_equal_entries (available_tags ?I')" by blast
  then have a': "no_equal_entries (remove1 tag7 (available_tags ?I))" by simp
  from th f have b: "no_equal_entries (available_tags (snd (get_next_available_tag ?I)))"
    by blast
  from th f have c: "no_equal_entries (available_tags (snd (make_tag_available ?I tag7)))"
    by blast
  from th m have d: "make_tag_available ?I tag7 = (VBool False, ?I)" by blast
  from f u a' b c r m d show ?thesis by blast
qed

text \<open>Claim C6. When an entry equal to the tag is in the pool, \<open>use_tag\<close> returns
  \<open>True\<close> and removes one such entry (the first): the pool is one shorter and holds the
  tag once less. When there is none, it returns \<open>False\<close> and the Interface is unchanged.
  It never raises.\<close>
theorem use_tag_reserves_or_refuses:
  "(list_ex (\<lambda>a. TAG_eq t a) (available_tags i) \<longrightarrow>
      use_tag i t = Inr (True, i\<lparr>available_tags := remove1 t (available_tags i)\<rparr>)
      \<and> length (remove1 t (available_tags i)) + 1 = length (available_tags i)
      \<and> count_list (remove1 t (available_tags i)) t + 1 = count_list (available_tags i) t)
   \<and> (\<not> list_ex (\<lambda>a. TAG_eq t a) (available_tags i) \<longrightarrow> use_tag i t = Inr (False, i))
   \<and> (\<forall>e. use_tag i t \<noteq> Inl e)"
proof -
  have m: "list_ex (\<lambda>a. TAG_eq t a) (available_tags i) \<longleftrightarrow> t \<in> set (available_tags i)"
    by (auto simp: list_ex_iff TAG_eq_iff)
  have c: "x \<in> set xs \<Longrightarrow> count_list (remove1 x xs) x + 1 = count_list xs x"
    and l: "x \<in> set xs \<Longrightarrow> length (remove1 x xs) + 1 = length xs" for x :: TAG and xs
    by (induction xs) auto
  show ?thesis unfolding m
    using c[of t "available_tags i"] l[of t "available_tags i"]
    by (simp add: use_tag_eq)
qed

theorem use_tag_reserves_or_refuses_witness:
  "list_ex (\<lambda>a. TAG_eq tag7 a) [tag7, \<lparr>tag_type = VLAN, tag_value = 8\<rparr>]
   \<and> use_tag ((Interface_init ''eth0'' 2 sw0 None None None None)
          \<lparr>available_tags := [tag7, \<lparr>tag_type = VLAN, tag_value = 8\<rparr>]\<rparr>) tag7 =
       Inr (True, (Interface_init ''eth0'' 2 sw0 None None None None)
          \<lparr>available_tags := [\<lparr>tag_type = VLAN, tag_value = 8\<rparr>]\<rparr>)
   \<and> \<not> list_ex (\<lambda>a. TAG_eq tag7 a) [\<lparr>tag_type = VLAN, tag_value = 8\<rparr>]
   \<and> use_tag ((Interface_init ''eth0'' 2 sw0 None None None None)
          \<lparr>available_tags := [\<lparr>tag_type = VLAN, tag_value = 8\<rparr>]\<rparr>) tag7 =
       Inr (False, (Interface_init ''eth0'' 2 sw0 None None None None)
          \<lparr>available_tags := [\<lparr>tag_type = VLAN, tag_value = 8\<rparr>]\<rparr>)"
  using use_tag_reserves_or_refuses[of tag7 "(Interface_init ''eth0'' 2 sw0 None None None None)
          \<lparr>available_tags := [tag7, \<lparr>tag_type = VLAN, tag_value = 8\<rparr>]\<rparr>"]
    use_tag_reserves_or_refuses[of tag7 "(Interface_init ''eth0'' 2 sw0 None None None None)
          \<lparr>available_tags := [\<lparr>tag_type = VLAN, tag_value = 8\<rparr>]\<rparr>"]
  by (simp add: TAG_eq_def tag7_def)

text \<open>Claim C7. On an empty pool \<open>get_next_available_tag\<close> returns the value \<open>False\<close>
  to the caller, no exception leaves it, and the pool stays empty.\<close>
theorem get_next_available_tag_exhausted:
  "available_tags i = [] \<Longrightarrow>
     get_next_available_tag i = (VBool False, i) \<and>
     available_tags (snd (get_next_available_tag i)) = []"
  by (simp add: get_next_empty)

theorem get_next_available_tag_exhausted_witness:
  "available_tags ((Interface_init ''eth0'' 2 sw0 None None None None)\<lparr>available_tags := []\<rparr>) = []
   \<and> get_next_available_tag ((Interface_init ''eth0'' 2 sw0 None None None None)\<lparr>available_tags := []\<rparr>)
       = (VBool False, (Interface_init ''eth0'' 2 sw0 None None None None)\<lparr>available_tags := []\<rparr>)"
  using get_next_available_tag_exhausted
    [of "(Interface_init ''eth0'' 2 sw0 None None None None)\<lparr>available_tags := []\<rparr>"]
  by simp


section \<open>Facts about Python numbers\<close>

lemma pow2_nonneg: "0 \<le> e \<Longrightarrow> pow2 e = 2 ^ nat e"
  by (simp add: pow2_def)

text \<open>\<open>floor_log2\<close> gives the binary exponent: the value lies in the binade that it
  names.\<close>

lemma floor_log2_bounds:
  assumes "0 < q"
  shows "pow2 (floor_log2 q) \<le> q \<and> q < pow2 (floor_log2 q + 1)"
proof (cases "1 \<le> q")
  case True
  define n where "n = \<lfloor>q\<rfloor>"
  have n: "0 < n" using True by (simp add: n_def)
  from bitlen_bounds[OF n] have b: "2 ^ nat (bitlen n - 1) \<le> n" "n < 2 ^ nat (bitlen n)"
    by simp_all
  have l: "1 \<le> bitlen n" using n by (auto simp: bitlen_alt_def)
  have "(of_int (2 ^ nat (bitlen n - 1)) :: rat) \<le> of_int n" using b(1) by (simp only: of_int_le_iff)
  also have "\<dots> \<le> q" unfolding n_def by simp
  finally have lo: "(2::rat) ^ nat (bitlen n - 1) \<le> q"
    by (simp only: of_int_power of_int_numeral)
  have "n + 1 \<le> 2 ^ nat (bitlen n)" using b(2) by simp
  then have "(of_int (n + 1) :: rat) \<le> of_int (2 ^ nat (bitlen n))" by (simp only: of_int_le_iff)
  then have "(of_int n :: rat) + 1 \<le> 2 ^ nat (bitlen n)"
    by (simp only: of_int_power of_int_numeral of_int_add of_int_1)
  moreover have "q < of_int n + 1" unfolding n_def by linarith
  ultimately have hi: "q < (2::rat) ^ nat (bitlen n)" by linarith
  have f: "floor_log2 q = bitlen n - 1" using True by (simp add: floor_log2_def n_def)
  show ?thesis unfolding f using lo hi l by (simp add: pow2_nonneg)
next
  case False
  define r where "r = 1 / q"
  have r1: "1 < r" using False assms by (simp add: r_def)
  define N where "N = \<lceil>r\<rceil> - 1"
  have N: "0 < N" using r1 unfolding N_def by (simp add: less_ceiling_iff)
  have Nr: "of_int N < r" "r \<le> of_int N + 1" unfolding N_def by (simp_all add: le_of_int_ceiling) linarith
  define L where "L = bitlen N"
  from bitlen_bounds[OF N] have b: "2 ^ nat (L - 1) \<le> N" "N < 2 ^ nat L"
    by (simp_all add: L_def)
  have l: "1 \<le> L" using N by (auto simp: bitlen_alt_def L_def)
  have "(of_int (2 ^ nat (L - 1)) :: rat) \<le> of_int N" using b(1) by (simp only: of_int_le_iff)
  then have "(2::rat) ^ nat (L - 1) \<le> of_int N" by (simp only: of_int_power of_int_numeral)
  with Nr(1) have lo: "(2::rat) ^ nat (L - 1) < r" by linarith
  have "N + 1 \<le> 2 ^ nat L" using b(2) by simp
  then have "(of_int (N + 1) :: rat) \<le> of_int (2 ^ nat L)" by (simp only: of_int_le_iff)
  then have "(of_int N :: rat) + 1 \<le> 2 ^ nat L"
    by (simp only: of_int_power of_int_numeral of_int_add of_int_1)
  with Nr(2) have hi: "r \<le> (2::rat) ^ nat L" by linarith
  have f: "floor_log2 q = - L" using False by (simp add: floor_log2_def r_def N_def L_def)
  have q: "q = 1 / r" using assms by (simp add: r_def)
  have p1: "pow2 (- L) = 1 / 2 ^ nat L" using l by (simp add: pow2_def)
  have p2: "pow2 (- L + 1) = 1 / 2 ^ nat (L - 1)" using l
    by (cases "L = 1") (simp_all add: pow2_def)
  have r0: "0 < r" using r1 by simp
  have a: "1 / 2 ^ nat L \<le> 1 / r" using hi r0 by (simp add: frac_le)
  have c: "1 / r < 1 / 2 ^ nat (L - 1)" using lo by (simp add: frac_less2)
  have "pow2 (- L) \<le> q \<and> q < pow2 (- L + 1)"
    unfolding p1 p2 using a c q by simp
  then show ?thesis by (simp only: f)
qed

lemma round_half_even_of_int: "round_half_even (of_int k) = k"
  by (simp add: round_half_even_def Let_def)

lemma floor_log2_of_int: "1 \<le> n \<Longrightarrow> floor_log2 (of_int n) = bitlen n - 1"
  by (simp add: floor_log2_def)

lemma bitlen_le_53:
  assumes "0 < n" "n < 2 ^ 53"
  shows "1 \<le> bitlen n \<and> bitlen n \<le> 53"
proof -
  from bitlen_bounds[OF assms(1)] have lo: "2 ^ nat (bitlen n - 1) \<le> n" by simp
  have "nat (bitlen n - 1) < 53"
  proof (rule ccontr)
    assume "\<not> nat (bitlen n - 1) < 53"
    then have "(2::int) ^ 53 \<le> 2 ^ nat (bitlen n - 1)"
      by (intro power_increasing) simp_all
    with lo assms(2) show False by linarith
  qed
  moreover have "1 \<le> bitlen n" using assms(1) by (auto simp: bitlen_alt_def)
  ultimately show ?thesis by linarith
qed

lemma pow2_scale:
  assumes "0 \<le> k" "k \<le> 52"
  shows "(of_int n :: rat) / pow2 (k - 52) = of_int (n * 2 ^ nat (52 - k))"
    and "of_int (n * 2 ^ nat (52 - k)) * pow2 (k - 52) = (of_int n :: rat)"
  using assms by (auto simp: pow2_def)

lemma binary64_of_pos_int:
  assumes "0 < n" "n < 2 ^ 53"
  shows "binary64 (of_int n) = Finite (of_int n)"
proof -
  from bitlen_le_53[OF assms] have b: "1 \<le> bitlen n" "bitlen n \<le> 53" by auto
  have fl: "floor_log2 (of_int n) = bitlen n - 1"
    using assms(1) by (simp add: floor_log2_of_int)
  define k where "k = bitlen n - 1"
  have k: "0 \<le> k" "k \<le> 52" using b by (auto simp: k_def)
  have mx: "max k (- 1022) = k" using k by simp
  have abs: "\<bar>of_int n :: rat\<bar> = of_int n" using assms(1) by simp
  have r: "round_half_even (of_int n / pow2 (k - 52)) = n * 2 ^ nat (52 - k)"
    by (simp only: pow2_scale(1)[OF k] round_half_even_of_int)
  have nz: "(of_int n :: rat) \<noteq> 0" "(0::rat) < of_int n" using assms(1) by simp_all
  have no: "\<not> (1024 \<le> k \<or> k = 1023 \<and> 2 ^ 53 \<le> n * 2 ^ nat (52 - k))"
    using k by simp
  show ?thesis
    unfolding binary64_def abs fl k_def[symmetric] mx Let_def r
    by (simp only: nz no if_False if_True pow2_scale(2)[OF k])
qed


lemma binary64_of_int:
  assumes "\<bar>n\<bar> < 2 ^ 53"
  shows "binary64 (of_int n) = Finite (of_int n)"
proof -
  consider "n = 0" | "0 < n" | "n < 0" by linarith
  then show ?thesis
  proof cases
    case 1 then show ?thesis by (simp add: binary64_def)
  next
    case 2 with assms show ?thesis by (simp add: binary64_of_pos_int)
  next
    case 3
    then have p: "0 < - n" "- n < 2 ^ 53" using assms by auto
    have "binary64 (of_int (- n)) = Finite (of_int (- n))" by (rule binary64_of_pos_int[OF p])
    then show ?thesis using 3 unfolding binary64_def Let_def
      by (simp split: if_splits)
  qed
qed

lemma int_truediv_exact:
  assumes "b \<noteq> 0" "a = b * c" "\<bar>c\<bar> < 2 ^ 53"
  shows "int_truediv a b = Inr (Finite (of_int c))"
  using assms by (simp add: int_truediv_def binary64_of_int)


section \<open>Facts about the speed and the identity\<close>

lemma return_div_values:
  "return_div (10 * 10 ^ 9) 8 = Inr (Some (PyFloat (Finite 1250000000)))"
  "return_div (10 ^ 9) 8 = Inr (Some (PyFloat (Finite 125000000)))"
  "return_div (100 * 10 ^ 6) 8 = Inr (Some (PyFloat (Finite 12500000)))"
  "return_div (10 * 10 ^ 6) 8 = Inr (Some (PyFloat (Finite 1250000)))"
  "return_div (10 ^ 12) 8 = Inr (Some (PyFloat (Finite 125000000000)))"
  "return_div (100 * 10 ^ 9) 8 = Inr (Some (PyFloat (Finite 12500000000)))"
  "return_div (40 * 10 ^ 9) 8 = Inr (Some (PyFloat (Finite 5000000000)))"
  using int_truediv_exact[of 8 "10 * 10 ^ 9" 1250000000]
    int_truediv_exact[of 8 "10 ^ 9" 125000000]
    int_truediv_exact[of 8 "100 * 10 ^ 6" 12500000]
    int_truediv_exact[of 8 "10 * 10 ^ 6" 1250000]
    int_truediv_exact[of 8 "10 ^ 12" 125000000000]
    int_truediv_exact[of 8 "100 * 10 ^ 9" 12500000000]
    int_truediv_exact[of 8 "40 * 10 ^ 9" 5000000000]
  by (simp_all add: return_div_def bind_err_def)

lemma tier_a_speed:
  "get_v0x01_v0x04_speed env i =
     (let fts = features i; p = PortFeatures01 env
      in if feature_set fts (OFPPF_10GB_FD p) then Inr (Some (PyFloat (Finite 1250000000)))
         else if feature_set fts (OFPPF_1GB_HD p OR OFPPF_1GB_FD p)
           then Inr (Some (PyFloat (Finite 125000000)))
         else if feature_set fts (OFPPF_100MB_HD p OR OFPPF_100MB_FD p)
           then Inr (Some (PyFloat (Finite 12500000)))
         else if feature_set fts (OFPPF_10MB_HD p OR OFPPF_10MB_FD p)
           then Inr (Some (PyFloat (Finite 1250000)))
         else Inr None)"
  unfolding get_v0x01_v0x04_speed_def return_div_values ..

lemma tier_b_speed:
  "get_v0x04_speed env i =
     (let fts = features i; p = PortFeatures04 env
      in if feature_set fts (OFPPF_1TB_FD p) then Inr (Some (PyFloat (Finite 125000000000)))
         else if feature_set fts (OFPPF_100GB_FD p)
           then Inr (Some (PyFloat (Finite 12500000000)))
         else if feature_set fts (OFPPF_40GB_FD p)
           then Inr (Some (PyFloat (Finite 5000000000)))
         else Inr None)"
  unfolding get_v0x04_speed_def return_div_values ..

lemma tier_a_clear:
  assumes "f AND tier_a_bits (PortFeatures01 env) = 0" "features i = Some f"
  shows "get_v0x01_v0x04_speed env i = Inr None"
proof -
  let ?p = "PortFeatures01 env"
  from assms(1) have z: "f AND OFPPF_10GB_FD ?p = 0"
    "f AND (OFPPF_1GB_HD ?p OR OFPPF_1GB_FD ?p) = 0"
    "f AND (OFPPF_100MB_HD ?p OR OFPPF_100MB_FD ?p) = 0"
    "f AND (OFPPF_10MB_HD ?p OR OFPPF_10MB_FD ?p) = 0"
    unfolding tier_a_bits_def by (simp_all only: bit.conj_disj_distrib or_eq_0_iff)
  show ?thesis
    unfolding tier_a_speed Let_def feature_set_def assms(2) by (simp add: z)
qed

text \<open>Claim C3. Once a custom speed other than \<open>None\<close> is set, by \<open>set_custom_speed\<close> or
  by the constructor, and also when it is 0, the property \<open>speed\<close> returns it whatever
  the features and the switch are; nothing is logged, as the speed of the features is not
  computed.\<close>
theorem custom_speed_overrides:
  "speed env (set_custom_speed i (Some v)) = Inr (Some v, [])
   \<and> speed env (set_custom_speed i (Some (PyInt 0))) = Inr (Some (PyInt 0), [])
   \<and> speed env (Interface_init nm pn sw addr st fts (Some v)) = Inr (Some v, [])
   \<and> (custom_speed i = Some v \<longrightarrow> speed env i = Inr (Some v, []))"
  by (simp add: speed_def set_custom_speed_def Interface_init_def)

theorem custom_speed_overrides_witness:
  "custom_speed (iface0\<lparr>custom_speed := Some (PyInt 0), features := Some 64\<rparr>) = Some (PyInt 0)
   \<and> speed env0 (iface0\<lparr>custom_speed := Some (PyInt 0), features := Some 64\<rparr>) =
       Inr (Some (PyInt 0), [])"
  using custom_speed_overrides
    [of env0 iface0 "PyInt 0" _ _ _ _ _ _]
    custom_speed_overrides
    [of env0 "iface0\<lparr>custom_speed := Some (PyInt 0), features := Some 64\<rparr>" "PyInt 0"]
  by simp

text \<open>Claim C9. An Interface equals a string exactly when its address is that string.
  It equals another Interface exactly when port number, name, address and the dpid of the
  switch agree, whatever the other attributes are; so two Interfaces with different switch
  dpids are not equal.\<close>
theorem interface_equality:
  "(Interface_eq i (OStr s) \<longleftrightarrow> address i = Some s)
   \<and> (Interface_eq i (OInterface j) \<longleftrightarrow>
        port_number i = port_number j \<and> name i = name j \<and> address i = address j \<and>
        dpid (switch i) = dpid (switch j))
   \<and> Interface_eq i (OInterface (i\<lparr>available_tags := p, nni := b, features := f,
        custom_speed := c, endpoints := e\<rparr>))
   \<and> (dpid (switch i) \<noteq> dpid (switch j) \<longrightarrow> \<not> Interface_eq i (OInterface j))"
  by (simp add: Interface_eq_def)


theorem interface_equality_witness:
  "Interface_eq (iface0\<lparr>address := Some mac0\<rparr>) (OStr mac0)
   \<and> Interface_eq (iface0\<lparr>address := Some mac0\<rparr>)
        (OInterface (iface0\<lparr>address := Some mac0, available_tags := [], nni := True\<rparr>))
   \<and> dpid (switch (iface0\<lparr>address := Some mac0\<rparr>)) \<noteq>
       dpid (switch (iface0\<lparr>address := Some mac0, switch := sw0\<lparr>dpid := ''00:00:00:00:00:00:00:02''\<rparr>\<rparr>))
   \<and> \<not> Interface_eq (iface0\<lparr>address := Some mac0\<rparr>)
        (OInterface (iface0\<lparr>address := Some mac0,
           switch := sw0\<lparr>dpid := ''00:00:00:00:00:00:00:02''\<rparr>\<rparr>))"
  using interface_equality[of "iface0\<lparr>address := Some mac0\<rparr>" mac0
      "iface0\<lparr>address := Some mac0, available_tags := [], nni := True\<rparr>"]
    interface_equality[of "iface0\<lparr>address := Some mac0\<rparr>" mac0
      "iface0\<lparr>address := Some mac0, switch := sw0\<lparr>dpid := ''00:00:00:00:00:00:00:02''\<rparr>\<rparr>"]
  by (simp add: iface0_def Interface_init_def sw0_def)

lemma of_features_speed:
  "get_of_features_speed env i =
     (case get_v0x01_v0x04_speed env i of
        Inl e \<Rightarrow> Inl e
      | Inr (Some v) \<Rightarrow> Inr (Some v, [])
      | Inr None \<Rightarrow>
          if is_v0x04 i
          then (case get_v0x04_speed env i of
                  Inl e \<Rightarrow> Inl e
                | Inr (Some v) \<Rightarrow> Inr (Some v, [])
                | Inr None \<Rightarrow> Inr (None, [unknown_speed_warning i]))
          else Inr (None, [unknown_speed_warning i]))"
  by (simp add: get_of_features_speed_def bind_err_def split: sum.splits option.splits)

lemma speed_no_custom: "custom_speed i = None \<Longrightarrow> speed env i = get_of_features_speed env i"
  by (simp add: speed_def)

lemma tier_a_result:
  "get_v0x01_v0x04_speed env i = Inr r \<Longrightarrow>
   r \<in> {None, Some (PyFloat (Finite 1250000000)), Some (PyFloat (Finite 125000000)),
         Some (PyFloat (Finite 12500000)), Some (PyFloat (Finite 1250000))}"
  unfolding tier_a_speed Let_def by (auto split: if_splits)

lemma tier_b_result:
  "get_v0x04_speed env i = Inr r \<Longrightarrow>
   r \<in> {None, Some (PyFloat (Finite 125000000000)), Some (PyFloat (Finite 12500000000)),
         Some (PyFloat (Finite 5000000000))}"
  unfolding tier_b_speed Let_def by (auto split: if_splits)

lemma tier_a_total: "\<exists>r. get_v0x01_v0x04_speed env i = Inr r"
  unfolding tier_a_speed Let_def by simp

lemma tier_b_total: "\<exists>r. get_v0x04_speed env i = Inr r"
  unfolding tier_b_speed Let_def by simp

text \<open>Claim C4. With no custom speed and none of the bits of the first tier set: when
  the switch is not connected with version 0x04 the speed is unknown (\<open>None\<close>, with the
  warning logged), whatever other bits are set; one of the speeds of the second tier is
  returned only when the first tier gave nothing and the switch is connected with version
  0x04; and then the 1 Tbps bit, the 100 Gbps bit and the 40 Gbps bit are tried in this
  order.\<close>
theorem tier_b_needs_v0x04:
  "(custom_speed i = None \<and> features i = Some f \<and>
    f AND tier_a_bits (PortFeatures01 env) = 0 \<and> \<not> is_v0x04 i \<longrightarrow>
      speed env i = Inr (None, [unknown_speed_warning i]))
   \<and> (custom_speed i = None \<and> speed env i = Inr (Some v, w) \<and>
       (v = PyFloat (Finite (10 ^ 12 / 8)) \<or> v = PyFloat (Finite (100 * 10 ^ 9 / 8)) \<or>
        v = PyFloat (Finite (40 * 10 ^ 9 / 8))) \<longrightarrow>
      is_v0x04 i \<and> get_v0x01_v0x04_speed env i = Inr None)
   \<and> (custom_speed i = None \<and> features i = Some f \<and>
       f AND tier_a_bits (PortFeatures01 env) = 0 \<and> is_v0x04 i \<longrightarrow>
      speed env i =
        (if f AND OFPPF_1TB_FD (PortFeatures04 env) \<noteq> 0
           then Inr (Some (PyFloat (Finite (10 ^ 12 / 8))), [])
         else if f AND OFPPF_100GB_FD (PortFeatures04 env) \<noteq> 0
           then Inr (Some (PyFloat (Finite (100 * 10 ^ 9 / 8))), [])
         else if f AND OFPPF_40GB_FD (PortFeatures04 env) \<noteq> 0
           then Inr (Some (PyFloat (Finite (40 * 10 ^ 9 / 8))), [])
         else Inr (None, [unknown_speed_warning i])))"
proof -
  have p1: "speed env i = Inr (None, [unknown_speed_warning i])"
    if a: "custom_speed i = None \<and> features i = Some f \<and>
      f AND tier_a_bits (PortFeatures01 env) = 0 \<and> \<not> is_v0x04 i"
  proof -
    from a have "get_v0x01_v0x04_speed env i = Inr None"
      using tier_a_clear[of f env i] by blast
    with a show ?thesis by (simp add: speed_def of_features_speed)
  qed
  have p2: "is_v0x04 i \<and> get_v0x01_v0x04_speed env i = Inr None"
    if a: "custom_speed i = None \<and> speed env i = Inr (Some v, w) \<and>
       (v = PyFloat (Finite (10 ^ 12 / 8)) \<or> v = PyFloat (Finite (100 * 10 ^ 9 / 8)) \<or>
        v = PyFloat (Finite (40 * 10 ^ 9 / 8)))"
  proof -
    from a have v: "v = PyFloat (Finite 125000000000) \<or> v = PyFloat (Finite 12500000000) \<or>
      v = PyFloat (Finite 5000000000)" by simp
    from a have c: "custom_speed i = None" and sp: "speed env i = Inr (Some v, w)"
      by blast+
    from sp have s: "get_of_features_speed env i = Inr (Some v, w)"
      unfolding speed_no_custom[OF c] .
    obtain r where r: "get_v0x01_v0x04_speed env i = Inr r" using tier_a_total by blast
    from tier_a_result[OF r] v s r have rn: "r = None"
      by (auto simp: of_features_speed)
    with r s have "is_v0x04 i" by (auto simp: of_features_speed split: if_splits)
    with r rn show ?thesis by simp
  qed
  have p3: "speed env i =
        (if f AND OFPPF_1TB_FD (PortFeatures04 env) \<noteq> 0
           then Inr (Some (PyFloat (Finite (10 ^ 12 / 8))), [])
         else if f AND OFPPF_100GB_FD (PortFeatures04 env) \<noteq> 0
           then Inr (Some (PyFloat (Finite (100 * 10 ^ 9 / 8))), [])
         else if f AND OFPPF_40GB_FD (PortFeatures04 env) \<noteq> 0
           then Inr (Some (PyFloat (Finite (40 * 10 ^ 9 / 8))), [])
         else Inr (None, [unknown_speed_warning i]))"
    if a: "custom_speed i = None \<and> features i = Some f \<and>
       f AND tier_a_bits (PortFeatures01 env) = 0 \<and> is_v0x04 i"
  proof -
    from a have "get_v0x01_v0x04_speed env i = Inr None"
      using tier_a_clear[of f env i] by blast
    with a show ?thesis
      by (auto simp: speed_def of_features_speed tier_b_speed feature_set_def)
  qed
  from p1 p2 p3 show ?thesis by blast
qed

theorem tier_b_needs_v0x04_witness:
  "custom_speed (iface0\<lparr>features := Some 512\<rparr>) = None
   \<and> features (iface0\<lparr>features := Some 512\<rparr>) = Some 512
   \<and> 512 AND tier_a_bits (PortFeatures01 env0) = 0
   \<and> \<not> is_v0x04 (iface0\<lparr>features := Some 512\<rparr>)
   \<and> speed env0 (iface0\<lparr>features := Some 512\<rparr>) =
       Inr (None, [unknown_speed_warning (iface0\<lparr>features := Some 512\<rparr>)])
   \<and> is_v0x04 (iface0\<lparr>features := Some 512, switch := sw4\<rparr>)
   \<and> get_v0x01_v0x04_speed env0 (iface0\<lparr>features := Some 512, switch := sw4\<rparr>) = Inr None
   \<and> speed env0 (iface0\<lparr>features := Some 512, switch := sw4\<rparr>) =
       Inr (Some (PyFloat (Finite (10 ^ 12 / 8))), [])"
proof -
  let ?i = "iface0\<lparr>features := Some 512\<rparr>"
  let ?j = "iface0\<lparr>features := Some 512, switch := sw4\<rparr>"
  have c: "custom_speed ?i = None" "custom_speed ?j = None"
    by (simp_all add: iface0_def Interface_init_def)
  have t: "512 AND tier_a_bits (PortFeatures01 env0) = 0"
    by (simp add: tier_a_bits_def env0_def pf01_def)
  have b: "(512::int) AND OFPPF_1TB_FD (PortFeatures04 env0) \<noteq> 0"
    by (simp add: env0_def pf04_def)
  have n: "\<not> is_v0x04 ?i" by (simp add: is_v0x04_def iface0_def Interface_init_def sw0_def)
  have y: "is_v0x04 ?j" by (simp add: is_v0x04_def sw4_def)
  note th1 = tier_b_needs_v0x04[of ?i 512 env0]
  note th2 = tier_b_needs_v0x04[of ?j 512 env0 "PyFloat (Finite (10 ^ 12 / 8))" "[]"]
  from th1 c t n have r1: "speed env0 ?i = Inr (None, [unknown_speed_warning ?i])" by simp
  from th2 c t y b have r2: "speed env0 ?j = Inr (Some (PyFloat (Finite (10 ^ 12 / 8))), [])"
    by simp
  from th2 c r2 have r3: "get_v0x01_v0x04_speed env0 ?j = Inr None" by simp
  from c t n y r1 r2 r3 show ?thesis by simp
qed

section \<open>Rounding a quotient twice\<close>

lemma rhe_floor:
  assumes "of_int n \<le> x" "x < of_int n + 1 / 2"
  shows "round_half_even x = n"
proof -
  have "\<lfloor>x\<rfloor> = n" using assms by (intro floor_unique) auto
  then show ?thesis using assms by (simp add: round_half_even_def Let_def)
qed

lemma rhe_ceil:
  assumes "of_int n + 1 / 2 < x" "x \<le> of_int n + 1"
  shows "round_half_even x = n + 1"
proof (cases "x = of_int n + 1")
  case True
  then have "x = of_int (n + 1)" by simp
  then show ?thesis by (simp only: round_half_even_of_int)
next
  case False
  then have "\<lfloor>x\<rfloor> = n" using assms by (intro floor_unique) auto
  then show ?thesis using assms by (simp add: round_half_even_def Let_def)
qed

lemma rhe_ge:
  assumes "of_int z \<le> x"
  shows "z \<le> round_half_even x"
proof -
  have "z \<le> \<lfloor>x\<rfloor>" using assms by (simp add: le_floor_iff)
  moreover have "\<lfloor>x\<rfloor> \<le> round_half_even x" by (simp add: round_half_even_def Let_def)
  ultimately show ?thesis by linarith
qed

lemma rhe_le:
  assumes "x \<le> of_int z"
  shows "round_half_even x \<le> z"
proof (cases "x = of_int z")
  case True
  then show ?thesis by (simp only: round_half_even_of_int)
next
  case False
  then have "x < of_int z" using assms by simp
  then have "\<lfloor>x\<rfloor> < z" by (simp add: floor_less_iff)
  moreover have "round_half_even x \<le> \<lfloor>x\<rfloor> + 1" by (simp add: round_half_even_def Let_def)
  ultimately show ?thesis by linarith
qed

lemma rhe_lt:
  assumes "x < of_int z - 1 / 2"
  shows "round_half_even x < z"
proof -
  have "x < of_int z" using assms by linarith
  then have f: "\<lfloor>x\<rfloor> < z" by (simp add: floor_less_iff)
  show ?thesis
  proof (cases "\<lfloor>x\<rfloor> = z - 1")
    case True
    then have "x - of_int \<lfloor>x\<rfloor> < 1 / 2" using assms by simp
    then show ?thesis using True by (simp add: round_half_even_def Let_def)
  next
    case False
    then have "\<lfloor>x\<rfloor> + 1 < z" using f by linarith
    moreover have "round_half_even x \<le> \<lfloor>x\<rfloor> + 1" by (simp add: round_half_even_def Let_def)
    ultimately show ?thesis by linarith
  qed
qed

lemma rhe_gt:
  assumes "of_int z + 1 / 2 < x"
  shows "z < round_half_even x"
proof -
  have "of_int z \<le> x" using assms by linarith
  then have f: "z \<le> \<lfloor>x\<rfloor>" by (simp add: le_floor_iff)
  show ?thesis
  proof (cases "\<lfloor>x\<rfloor> = z")
    case True
    then have "1 / 2 < x - of_int \<lfloor>x\<rfloor>" using assms by simp
    then show ?thesis using True by (simp add: round_half_even_def Let_def)
  next
    case False
    then have "z < \<lfloor>x\<rfloor>" using f by linarith
    moreover have "\<lfloor>x\<rfloor> \<le> round_half_even x" by (simp add: round_half_even_def Let_def)
    ultimately show ?thesis by linarith
  qed
qed


lemma rhe_scaled:
  fixes q :: rat
  assumes k: "1 \<le> k"
    and gap: "q \<noteq> of_int \<lfloor>q\<rfloor> + 1 / 2 \<Longrightarrow> 1 / (2 * 2 ^ k) < \<bar>q - (of_int \<lfloor>q\<rfloor> + 1 / 2)\<bar>"
  shows "round_half_even (of_int (round_half_even (q * 2 ^ k)) / 2 ^ k) = round_half_even q"
proof -
  define n where "n = \<lfloor>q\<rfloor>"
  define P :: rat where "P = 2 ^ k"
  define H :: int where "H = n * 2 ^ k + 2 ^ (k - 1)"
  define m where "m = round_half_even (q * P)"
  have P0: "0 < P" by (simp add: P_def)
  have Pk: "P = 2 * 2 ^ (k - 1)" using k unfolding P_def
    by (metis power_eq_if not_one_le_zero)
  have HP: "of_int H = (of_int n + 1 / 2) * P"
    unfolding H_def by (simp add: Pk algebra_simps) (simp add: P_def[symmetric] Pk)
  have nP: "of_int (n * 2 ^ k) = of_int n * P" by (simp add: P_def)
  have n1P: "of_int ((n + 1) * 2 ^ k) = (of_int n + 1) * P" by (simp add: P_def)
  have lo: "of_int n \<le> q" and hi: "q < of_int n + 1" unfolding n_def by linarith+
  consider (eq) "q = of_int n + 1 / 2" | (lt) "q < of_int n + 1 / 2" | (gt) "of_int n + 1 / 2 < q"
    by linarith
  then have "round_half_even (of_int m / P) = round_half_even q"
  proof cases
    case eq
    then have "q * P = of_int H" by (simp add: HP)
    then have "m = H" unfolding m_def by (simp only: round_half_even_of_int)
    then have "of_int m / P = q" using P0 eq by (simp add: HP)
    then show ?thesis by simp
  next
    case lt
    then have "1 / (2 * P) < of_int n + 1 / 2 - q"
      using gap unfolding n_def[symmetric] P_def by linarith
    then have "1 / (2 * P) * P < (of_int n + 1 / 2 - q) * P"
      using P0 by (simp only: mult_less_cancel_right_pos)
    then have "q * P < of_int H - 1 / 2" using P0 by (simp add: HP algebra_simps)
    then have "m < H" unfolding m_def by (rule rhe_lt)
    then have "of_int m < (of_int H :: rat)" by simp
    then have "of_int m < (of_int n + 1 / 2) * P" by (simp only: HP)
    then have up: "of_int m / P < of_int n + 1 / 2" using P0 by (simp add: divide_less_eq)
    have "of_int n * P \<le> q * P" using lo P0 by (intro mult_right_mono) simp_all
    then have "of_int (n * 2 ^ k) \<le> q * P" by (simp only: nP)
    then have "n * 2 ^ k \<le> m" unfolding m_def by (rule rhe_ge)
    then have "(of_int (n * 2 ^ k) :: rat) \<le> of_int m" by (simp only: of_int_le_iff)
    then have "of_int n * P \<le> of_int m" by (simp only: nP)
    then have dn: "of_int n \<le> of_int m / P" using P0 by (simp add: le_divide_eq)
    from rhe_floor[OF dn up] rhe_floor[OF lo lt] show ?thesis by simp
  next
    case gt
    then have "1 / (2 * P) < q - (of_int n + 1 / 2)"
      using gap unfolding n_def[symmetric] P_def by linarith
    then have "1 / (2 * P) * P < (q - (of_int n + 1 / 2)) * P"
      using P0 by (simp only: mult_less_cancel_right_pos)
    then have "of_int H + 1 / 2 < q * P" using P0 by (simp add: HP algebra_simps)
    then have "H < m" unfolding m_def by (rule rhe_gt)
    then have "(of_int H :: rat) < of_int m" by simp
    then have "(of_int n + 1 / 2) * P < of_int m" by (simp only: HP)
    then have dn: "of_int n + 1 / 2 < of_int m / P" using P0 by (simp add: less_divide_eq)
    have "q * P \<le> (of_int n + 1) * P" using hi P0 by (intro mult_right_mono) simp_all
    then have "q * P \<le> of_int ((n + 1) * 2 ^ k)" by (simp only: n1P)
    then have "m \<le> (n + 1) * 2 ^ k" unfolding m_def by (rule rhe_le)
    then have "(of_int m :: rat) \<le> of_int ((n + 1) * 2 ^ k)" by (simp only: of_int_le_iff)
    then have "of_int m \<le> (of_int n + 1) * P" by (simp only: n1P)
    then have up: "of_int m / P \<le> of_int n + 1" using P0 by (simp add: divide_le_eq)
    have hi': "q \<le> of_int n + 1" using hi by simp
    from rhe_ceil[OF dn up] rhe_ceil[OF gt hi'] show ?thesis by simp
  qed
  then show ?thesis unfolding m_def P_def .
qed


lemma bitlen_le_23:
  assumes "0 < n" "n < 2 ^ 23"
  shows "bitlen n \<le> 23"
proof -
  from bitlen_bounds[OF assms(1)] have lo: "2 ^ nat (bitlen n - 1) \<le> n" by simp
  have "nat (bitlen n - 1) < 23"
  proof (rule ccontr)
    assume "\<not> nat (bitlen n - 1) < 23"
    then have "(2::int) ^ 23 \<le> 2 ^ nat (bitlen n - 1)"
      by (intro power_increasing) simp_all
    with lo assms(2) show False by linarith
  qed
  then show ?thesis by linarith
qed

lemma floor_log2_le_22:
  assumes "0 < q" "q < 2 ^ 23"
  shows "floor_log2 q \<le> 22"
proof (cases "1 \<le> q")
  case True
  then have "0 < \<lfloor>q\<rfloor>" by simp
  moreover have "\<lfloor>q\<rfloor> < 2 ^ 23" using assms(2) by (simp add: floor_less_iff)
  ultimately have "bitlen \<lfloor>q\<rfloor> \<le> 23" by (rule bitlen_le_23)
  with True show ?thesis by (simp add: floor_log2_def)
next
  case False
  have "0 \<le> bitlen (\<lceil>1 / q\<rceil> - 1)" by (rule bitlen_nonneg)
  with False show ?thesis by (simp add: floor_log2_def)
qed

lemma half_gap:
  fixes s d n :: int
  assumes d: "0 < d" and k: "of_int d < (2::rat) ^ k"
    and ne: "of_int s / of_int d \<noteq> (of_int n + 1 / 2 :: rat)"
  shows "1 / (2 * 2 ^ k) < \<bar>of_int s / of_int d - (of_int n + 1 / 2 :: rat)\<bar>"
proof -
  define t where "t = 2 * s - (2 * n + 1) * d"
  have dr: "(0::rat) < of_int d" using d by simp
  have eq: "of_int s / of_int d - (of_int n + 1 / 2 :: rat) = of_int t / (2 * of_int d)"
    using dr by (simp add: t_def field_simps)
  have "t \<noteq> 0"
  proof
    assume "t = 0"
    with eq have "of_int s / of_int d - (of_int n + 1 / 2 :: rat) = 0" by simp
    with ne show False by simp
  qed
  then have "1 \<le> \<bar>t\<bar>" by linarith
  then have "(1::rat) \<le> of_int \<bar>t\<bar>" by (simp only: of_int_1_le_iff)
  then have t1: "(1::rat) \<le> \<bar>of_int t\<bar>" by simp
  have "1 / (2 * 2 ^ k) < 1 / (2 * (of_int d :: rat))"
    using dr k by (simp add: frac_less2)
  also have "\<dots> \<le> \<bar>of_int t\<bar> / (2 * of_int d)"
    using t1 dr by (simp add: divide_le_cancel)
  also have "\<dots> = \<bar>of_int t / (2 * (of_int d :: rat))\<bar>" using dr by simp
  finally show ?thesis by (simp only: eq)
qed

lemma binary64_round_agrees:
  fixes s d :: int
  assumes s: "0 \<le> s" and d: "0 < d" "d < 2 ^ 30" and b: "s < 2 ^ 23 * d"
  shows "\<exists>y. binary64 (of_int s / of_int d) = Finite y \<and>
             round_half_even y = round_half_even (of_int s / of_int d)"
proof (cases "s = 0")
  case True
  then show ?thesis by (simp add: binary64_def)
next
  case False
  define q :: rat where "q = of_int s / of_int d"
  have dr: "(0::rat) < of_int d" using d by simp
  have q0: "0 < q" using False s dr by (simp add: q_def)
  have "(of_int s :: rat) < of_int (2 ^ 23 * d)" using b by (simp only: of_int_less_iff)
  then have q23: "q < 2 ^ 23" using dr by (simp add: q_def divide_less_eq)
  define e where "e = max (floor_log2 q) (- 1022)"
  have e: "- 1022 \<le> e" "e \<le> 22"
    using floor_log2_le_22[OF q0 q23] by (simp_all add: e_def)
  define k where "k = nat (52 - e)"
  have k: "30 \<le> k" using e by (simp add: k_def)
  have u: "pow2 (e - 52) = 1 / 2 ^ k" using e by (simp add: pow2_def k_def)
  define m where "m = round_half_even (q * 2 ^ k)"
  have no: "\<not> (1024 \<le> e \<or> e = 1023 \<and> 2 ^ 53 \<le> m)" using e by simp
  have aq: "\<bar>q\<bar> = q" using q0 by simp
  have val: "binary64 q = Finite (of_int m / 2 ^ k)"
    unfolding binary64_def aq e_def[symmetric] Let_def u
    using q0 no by (simp add: m_def)
  have "(2::int) ^ 30 \<le> 2 ^ k" using k by (intro power_increasing) simp_all
  with d(2) have "d < 2 ^ k" by linarith
  then have "(of_int d :: rat) < of_int (2 ^ k)" by (simp only: of_int_less_iff)
  then have dk: "of_int d < (2::rat) ^ k" by simp
  have k1: "1 \<le> k" using k by simp
  have "round_half_even (of_int (round_half_even (q * 2 ^ k)) / 2 ^ k) = round_half_even q"
    using half_gap[OF d(1) dk, of s "\<lfloor>q\<rfloor>"]
    by (intro rhe_scaled[OF k1]) (simp add: q_def)
  then have "round_half_even (of_int m / 2 ^ k) = round_half_even q" by (simp only: m_def)
  with val show ?thesis unfolding q_def by blast
qed

section \<open>Facts about the rendering of the speed\<close>

lemma binary64_numeral:
  "(numeral k :: int) < 2 ^ 53 \<Longrightarrow> binary64 (numeral k) = Finite (numeral k)"
  using binary64_of_int[of "numeral k"] by simp

lemma int_to_float_numeral:
  "(numeral k :: int) < 2 ^ 53 \<Longrightarrow> int_to_float (numeral k) = Inr (Finite (numeral k))"
  using binary64_of_int[of "numeral k"] by (simp add: int_to_float_def)

lemma float_truediv_exact:
  assumes "b \<noteq> 0" "a = b * of_int c" "\<bar>c\<bar> < 2 ^ 53"
  shows "float_truediv (Finite a) (Finite b) = Inr (Finite (of_int c))"
  using assms by (simp add: float_truediv_def binary64_of_int)

lemma str_int_values:
  "str_int 0 = ''0''" "str_int 1 = ''1''" "str_int 10 = ''10''" "str_int 40 = ''40''"
  "str_int 100 = ''100''"
  by code_simp+

lemma get_hr_speed_of_speed:
  "speed env i = Inr (Some v, w) \<Longrightarrow>
   get_hr_speed env i =
     bind_err (py_mul v 8) (\<lambda>s.
       if py_eq s (10 ^ 12) then Inr (''1 Tbps'', w)
       else if py_ge s (10 ^ 9)
         then bind_err (py_truediv s (10 ^ 9)) (\<lambda>q.
              bind_err (py_round q) (\<lambda>n. Inr (str_int n @ '' Gbps'', w)))
       else bind_err (py_truediv s (10 ^ 6)) (\<lambda>q.
            bind_err (py_round q) (\<lambda>n. Inr (str_int n @ '' Mbps'', w))))"
  by (simp add: get_hr_speed_def bind_err_def)

lemma round_half_even_numeral: "round_half_even (numeral k) = numeral k"
  using round_half_even_of_int[of "numeral k"] by simp

lemma int_truediv_round:
  assumes "0 \<le> s" "0 < d" "d < 2 ^ 30" "s < 2 ^ 23 * d"
  shows "bind_err (int_truediv s d) py_round = Inr (round_half_even (of_int s / of_int d))"
proof -
  from binary64_round_agrees[OF assms] obtain y where
    y: "binary64 (of_int s / of_int d) = Finite y"
       "round_half_even y = round_half_even (of_int s / of_int d)" by blast
  then show ?thesis using assms(2) by (simp add: int_truediv_def bind_err_def)
qed

lemma tbps_of_int: "(of_int b :: rat) * 8 = 10 ^ 12 \<longleftrightarrow> b * 8 = 10 ^ 12"
proof -
  have "(of_int b :: rat) * 8 = of_int (b * 8)" by simp
  moreover have "(10 ^ 12 :: rat) = of_int (10 ^ 12)" by simp
  ultimately show ?thesis by (simp only: of_int_eq_iff)
qed

lemma gbps_of_int: "(10 ^ 9 :: rat) \<le> of_int b * 8 \<longleftrightarrow> 10 ^ 9 \<le> b * 8"
proof -
  have "(of_int b :: rat) * 8 = of_int (b * 8)" by simp
  moreover have "(10 ^ 9 :: rat) = of_int (10 ^ 9)" by simp
  ultimately show ?thesis by (simp only: of_int_le_iff)
qed

lemma int_truediv_round_gbps:
  assumes b: "0 \<le> b" "b < 2 ^ 20 * 10 ^ 9"
  shows "bind_err (int_truediv (b * 8) (10 ^ 9)) py_round =
           Inr (round_half_even (of_int (b * 8) / of_int (10 ^ 9)))"
proof (rule int_truediv_round)
  show "0 \<le> b * 8" using b by simp
  show "(0::int) < 10 ^ 9" by simp
  show "(10::int) ^ 9 < 2 ^ 30" by simp
  show "b * 8 < 2 ^ 23 * 10 ^ 9" using b by simp
qed


lemma int_truediv_round_mbps:
  assumes b: "0 \<le> b" "b * 8 < 10 ^ 9"
  shows "bind_err (int_truediv (b * 8) (10 ^ 6)) py_round =
           Inr (round_half_even (of_int (b * 8) / of_int (10 ^ 6)))"
proof (rule int_truediv_round)
  show "0 \<le> b * 8" using b by simp
  show "(0::int) < 10 ^ 6" by simp
  show "(10::int) ^ 6 < 2 ^ 30" by simp
  show "b * 8 < 2 ^ 23 * 10 ^ 6" using b by simp
qed

lemma hr_tbps:
  assumes sp: "speed env i = Inr (Some (PyInt b), w)" and t: "b * 8 = 10 ^ 12"
  shows "get_hr_speed env i = Inr (hr_speed_spec (of_int b), w)"
proof -
  have e: "(of_int b :: rat) * 8 = 10 ^ 12" using tbps_of_int[of b] t by blast
  have "hr_speed_spec (of_int b) = ''1 Tbps''"
    unfolding hr_speed_spec_def Let_def e by (simp only: simp_thms if_True)
  moreover have pe: "py_eq (PyInt (b * 8)) (10 ^ 12)" using t by simp
  have "get_hr_speed env i = Inr (''1 Tbps'', w)"
    unfolding get_hr_speed_of_speed[OF sp] py_mul.simps bind_err_def
    using pe by (simp only: sum.case if_True)
  ultimately show ?thesis by (simp only:)
qed

lemma hr_gbps:
  assumes sp: "speed env i = Inr (Some (PyInt b), w)" and b: "0 \<le> b" "b < 2 ^ 20 * 10 ^ 9"
   and ne: "b * 8 \<noteq> 10 ^ 12" and ge: "10 ^ 9 \<le> b * 8"
  shows "get_hr_speed env i = Inr (hr_speed_spec (of_int b), w)"
proof -
  from int_truediv_round_gbps[OF b] obtain q where q: "int_truediv (b * 8) (10 ^ 9) = Inr q"
    "py_round q = Inr (round_half_even (of_int (b * 8) / of_int (10 ^ 9)))"
    unfolding bind_err_def by (cases "int_truediv (b * 8) (10 ^ 9)") simp_all
  have r: "(of_int (b * 8) / of_int (10 ^ 9) :: rat) = of_int b * 8 / 10 ^ 9" by simp
  have s: "hr_speed_spec (of_int b) =
    str_int (round_half_even (of_int (b * 8) / of_int (10 ^ 9))) @ '' Gbps''"
    unfolding hr_speed_spec_def Let_def r using tbps_of_int[of b] gbps_of_int[of b] ne ge
    by (simp only: if_True if_False)
  have "get_hr_speed env i =
    Inr (str_int (round_half_even (of_int (b * 8) / of_int (10 ^ 9))) @ '' Gbps'', w)"
    unfolding get_hr_speed_of_speed[OF sp] py_mul.simps bind_err_def
    using ne ge q by (simp only: sum.case py_eq.simps py_ge.simps py_truediv.simps if_True if_False)
  with s show ?thesis by (simp only:)
qed

lemma hr_mbps:
  assumes sp: "speed env i = Inr (Some (PyInt b), w)" and b: "0 \<le> b"
   and lt: "b * 8 < 10 ^ 9"
  shows "get_hr_speed env i = Inr (hr_speed_spec (of_int b), w)"
proof -
  from int_truediv_round_mbps[OF b lt] obtain q where q: "int_truediv (b * 8) (10 ^ 6) = Inr q"
    "py_round q = Inr (round_half_even (of_int (b * 8) / of_int (10 ^ 6)))"
    unfolding bind_err_def by (cases "int_truediv (b * 8) (10 ^ 6)") simp_all
  have ne: "b * 8 \<noteq> 10 ^ 12" and nge: "\<not> 10 ^ 9 \<le> b * 8" using lt by simp_all
  have r: "(of_int (b * 8) / of_int (10 ^ 6) :: rat) = of_int b * 8 / 10 ^ 6" by simp
  have s: "hr_speed_spec (of_int b) =
    str_int (round_half_even (of_int (b * 8) / of_int (10 ^ 6))) @ '' Mbps''"
    unfolding hr_speed_spec_def Let_def r using tbps_of_int[of b] gbps_of_int[of b] ne nge
    by (simp only: if_True if_False)
  have "get_hr_speed env i =
    Inr (str_int (round_half_even (of_int (b * 8) / of_int (10 ^ 6))) @ '' Mbps'', w)"
    unfolding get_hr_speed_of_speed[OF sp] py_mul.simps bind_err_def
    using ne nge q by (simp only: sum.case py_eq.simps py_ge.simps py_truediv.simps if_True if_False)
  with s show ?thesis by (simp only:)
qed

lemma hr_int_exact:
  assumes sp: "speed env i = Inr (Some (PyInt b), w)" and b: "0 \<le> b" "b < 2 ^ 20 * 10 ^ 9"
  shows "get_hr_speed env i = Inr (hr_speed_spec (of_int b), w)"
proof -
  consider "b * 8 = 10 ^ 12" | "b * 8 \<noteq> 10 ^ 12" "10 ^ 9 \<le> b * 8" | "b * 8 < 10 ^ 9"
    by linarith
  then show ?thesis
  proof cases
    case 1 then show ?thesis by (rule hr_tbps[OF sp])
  next
    case 2 then show ?thesis by (rule hr_gbps[OF sp b])
  next
    case 3 then show ?thesis by (rule hr_mbps[OF sp b(1)])
  qed
qed

lemma features_speed_values:
  assumes "custom_speed i = None" "speed env i = Inr (Some v, w)"
  shows "v \<in> {PyFloat (Finite 1250000000), PyFloat (Finite 125000000),
              PyFloat (Finite 12500000), PyFloat (Finite 1250000),
              PyFloat (Finite 125000000000), PyFloat (Finite 12500000000),
              PyFloat (Finite 5000000000)}"
proof -
  from assms have s: "get_of_features_speed env i = Inr (Some v, w)"
    by (simp only: speed_no_custom)
  obtain a where a: "get_v0x01_v0x04_speed env i = Inr a" using tier_a_total by blast
  obtain b where b: "get_v0x04_speed env i = Inr b" using tier_b_total by blast
  from s a b have "Some v = a \<or> Some v = b"
    by (auto simp: of_features_speed split: option.splits if_splits)
  with tier_a_result[OF a] tier_b_result[OF b] show ?thesis by auto
qed

lemma binary64_one: "binary64 1 = Finite 1"
  using binary64_of_int[of 1] by simp

lemma hr_float_value:
  assumes "speed env i = Inr (Some (PyFloat (Finite x)), w)"
    and "x \<in> {1250000000, 125000000, 12500000, 1250000, 125000000000, 12500000000,
               5000000000}"
  shows "get_hr_speed env i = Inr (hr_speed_spec x, w)"
  using assms(2)
  by (auto simp: get_hr_speed_of_speed[OF assms(1)] hr_speed_spec_def bind_err_def
      int_to_float_numeral float_mul_def float_truediv_def binary64_numeral binary64_one
      round_half_even_numeral)

lemma hr_spec_values:
  "hr_speed_spec 1250000000 = ''10 Gbps''"
  "hr_speed_spec 125000000 = ''1 Gbps''"
  "hr_speed_spec 12500000 = ''100 Mbps''"
  "hr_speed_spec 1250000 = ''10 Mbps''"
  "hr_speed_spec 125000000000 = ''1 Tbps''"
  "hr_speed_spec 12500000000 = ''100 Gbps''"
  "hr_speed_spec 5000000000 = ''40 Gbps''"
  "hr_speed_spec 0 = ''0 Mbps''"
  using round_half_even_of_int[of 0] round_half_even_of_int[of 1]
  by (simp_all add: hr_speed_spec_def round_half_even_numeral str_int_values)

lemma as_dict_speed:
  assumes "speed env i = Inr (spd, w)"
  shows "\<exists>d. as_dict env i = Inr (d, w) \<and>
             map_of d ''speed'' = Some (case spd of None \<Rightarrow> VNone | Some v \<Rightarrow> VNum v)"
  by (simp add: as_dict_def bind_err_def assms Let_def split: option.splits)

lemma tier_a_10G:
  "feature_set (features i) (OFPPF_10GB_FD (PortFeatures01 env)) \<Longrightarrow>
   get_v0x01_v0x04_speed env i = Inr (Some (PyFloat (Finite 1250000000)))"
  unfolding tier_a_speed Let_def by simp

text \<open>Claim C10. With no custom speed, a speed that the features give is one of the seven
  quotients by 8, each the result of a true division and so a float, never an integer: the
  10 Gbps bit gives 1250000000.0 and the 1 Tbps bit 125000000000.0. The dictionary of
  \<open>as_dict\<close> holds under \<open>speed\<close> the very value that the property \<open>speed\<close> returns. A
  custom speed is returned, and rendered there, as it was set.\<close>
theorem features_speed_is_float:
  "(custom_speed i = None \<and> speed env i = Inr (Some v, w) \<longrightarrow>
      (\<exists>x. v = PyFloat (Finite x)) \<and> (\<forall>n. v \<noteq> PyInt n) \<and>
      v \<in> {PyFloat (Finite 1250000000), PyFloat (Finite 125000000),
           PyFloat (Finite 12500000), PyFloat (Finite 1250000),
           PyFloat (Finite 125000000000), PyFloat (Finite 12500000000),
           PyFloat (Finite 5000000000)})
   \<and> (custom_speed i = None \<and>
       feature_set (features i) (OFPPF_10GB_FD (PortFeatures01 env)) \<longrightarrow>
      speed env i = Inr (Some (PyFloat (Finite 1250000000)), []))
   \<and> (custom_speed i = None \<and> features i = Some f \<and>
       f AND tier_a_bits (PortFeatures01 env) = 0 \<and> is_v0x04 i \<and>
       f AND OFPPF_1TB_FD (PortFeatures04 env) \<noteq> 0 \<longrightarrow>
      speed env i = Inr (Some (PyFloat (Finite 125000000000)), []))
   \<and> (speed env i = Inr (spd, w) \<longrightarrow>
      (\<exists>d. as_dict env i = Inr (d, w) \<and>
           map_of d ''speed'' = Some (case spd of None \<Rightarrow> VNone | Some u \<Rightarrow> VNum u)))
   \<and> (custom_speed i = Some c \<longrightarrow>
      speed env i = Inr (Some c, []) \<and>
      (\<exists>d. as_dict env i = Inr (d, []) \<and> map_of d ''speed'' = Some (VNum c)))"
proof -
  have p1: "(\<exists>x. v = PyFloat (Finite x)) \<and> (\<forall>n. v \<noteq> PyInt n) \<and>
      v \<in> {PyFloat (Finite 1250000000), PyFloat (Finite 125000000),
           PyFloat (Finite 12500000), PyFloat (Finite 1250000),
           PyFloat (Finite 125000000000), PyFloat (Finite 12500000000),
           PyFloat (Finite 5000000000)}"
    if "custom_speed i = None \<and> speed env i = Inr (Some v, w)"
    using features_speed_values[of i env v w] that by auto
  have p2: "speed env i = Inr (Some (PyFloat (Finite 1250000000)), [])"
    if "custom_speed i = None \<and>
       feature_set (features i) (OFPPF_10GB_FD (PortFeatures01 env))"
    using that by (simp add: speed_no_custom of_features_speed tier_a_10G)
  have p3: "speed env i = Inr (Some (PyFloat (Finite 125000000000)), [])"
    if a: "custom_speed i = None \<and> features i = Some f \<and>
       f AND tier_a_bits (PortFeatures01 env) = 0 \<and> is_v0x04 i \<and>
       f AND OFPPF_1TB_FD (PortFeatures04 env) \<noteq> 0"
  proof -
    from a have "get_v0x01_v0x04_speed env i = Inr None"
      using tier_a_clear[of f env i] by blast
    moreover from a have "f \<noteq> 0" by auto
    ultimately show ?thesis using a
      by (simp add: speed_no_custom of_features_speed tier_b_speed feature_set_def Let_def)
  qed
  have p4: "\<exists>d. as_dict env i = Inr (d, w) \<and>
           map_of d ''speed'' = Some (case spd of None \<Rightarrow> VNone | Some u \<Rightarrow> VNum u)"
    if "speed env i = Inr (spd, w)"
    using that by (rule as_dict_speed)
  have p5: "speed env i = Inr (Some c, []) \<and>
      (\<exists>d. as_dict env i = Inr (d, []) \<and> map_of d ''speed'' = Some (VNum c))"
    if a: "custom_speed i = Some c"
  proof -
    from a have s: "speed env i = Inr (Some c, [])" by (simp add: speed_def)
    from as_dict_speed[OF s] s show ?thesis by simp
  qed
  from p1 p2 p3 p4 p5 show ?thesis by blast
qed

theorem features_speed_is_float_witness:
  "custom_speed (iface0\<lparr>features := Some 64\<rparr>) = None
   \<and> feature_set (features (iface0\<lparr>features := Some 64\<rparr>)) (OFPPF_10GB_FD (PortFeatures01 env0))
   \<and> speed env0 (iface0\<lparr>features := Some 64\<rparr>) = Inr (Some (PyFloat (Finite 1250000000)), [])
   \<and> (\<exists>d. as_dict env0 (iface0\<lparr>features := Some 64\<rparr>) = Inr (d, []) \<and>
          map_of d ''speed'' = Some (VNum (PyFloat (Finite 1250000000))))
   \<and> custom_speed (iface0\<lparr>features := Some 512, switch := sw4\<rparr>) = None
   \<and> 512 AND tier_a_bits (PortFeatures01 env0) = 0
   \<and> is_v0x04 (iface0\<lparr>features := Some 512, switch := sw4\<rparr>)
   \<and> 512 AND OFPPF_1TB_FD (PortFeatures04 env0) \<noteq> 0
   \<and> speed env0 (iface0\<lparr>features := Some 512, switch := sw4\<rparr>) =
       Inr (Some (PyFloat (Finite 125000000000)), [])
   \<and> custom_speed (iface0\<lparr>custom_speed := Some (PyInt 5)\<rparr>) = Some (PyInt 5)
   \<and> speed env0 (iface0\<lparr>custom_speed := Some (PyInt 5)\<rparr>) = Inr (Some (PyInt 5), [])
   \<and> (\<exists>d. as_dict env0 (iface0\<lparr>custom_speed := Some (PyInt 5)\<rparr>) = Inr (d, []) \<and>
          map_of d ''speed'' = Some (VNum (PyInt 5)))"
proof -
  let ?i = "iface0\<lparr>features := Some 64\<rparr>"
  let ?j = "iface0\<lparr>features := Some 512, switch := sw4\<rparr>"
  let ?k = "iface0\<lparr>custom_speed := Some (PyInt 5)\<rparr>"
  have c: "custom_speed ?i = None" "custom_speed ?j = None"
    by (simp_all add: iface0_def Interface_init_def)
  have fi: "feature_set (features ?i) (OFPPF_10GB_FD (PortFeatures01 env0))"
    by (simp add: feature_set_def env0_def pf01_def)
  have t: "512 AND tier_a_bits (PortFeatures01 env0) = 0"
    by (simp add: tier_a_bits_def env0_def pf01_def)
  have b: "(512::int) AND OFPPF_1TB_FD (PortFeatures04 env0) \<noteq> 0"
    by (simp add: env0_def pf04_def)
  have y: "is_v0x04 ?j" by (simp add: is_v0x04_def sw4_def)
  have ck: "custom_speed ?k = Some (PyInt 5)" by simp
  note th1 = features_speed_is_float
    [of ?i env0 "PyFloat (Finite 1250000000)" "[]" 512 "Some (PyFloat (Finite 1250000000))"]
  note th2 = features_speed_is_float[of ?j env0 _ _ 512]
  note th3 = features_speed_is_float[of ?k env0 _ _ _ _ "PyInt 5"]
  from th1 c fi have s1: "speed env0 ?i = Inr (Some (PyFloat (Finite 1250000000)), [])"
    by blast
  from th1 s1 have d1: "\<exists>d. as_dict env0 ?i = Inr (d, []) \<and>
          map_of d ''speed'' = Some (VNum (PyFloat (Finite 1250000000)))" by simp
  from th2 c t b y have s2: "speed env0 ?j = Inr (Some (PyFloat (Finite 125000000000)), [])"
    by simp
  from th3 ck have s3: "speed env0 ?k = Inr (Some (PyInt 5), []) \<and>
      (\<exists>d. as_dict env0 ?k = Inr (d, []) \<and> map_of d ''speed'' = Some (VNum (PyInt 5)))"
    by blast
  from c fi s1 d1 t y b s2 ck s3 show ?thesis by blast
qed

lemma speed_custom: "speed env (i\<lparr>custom_speed := Some c\<rparr>) = Inr (Some c, [])"
  by (simp add: speed_def)

text \<open>Claim C8. \<open>get_hr_speed\<close> returns the empty string when the speed is unknown.
  Otherwise, with \<open>s\<close> the speed times 8: when \<open>s\<close> equals \<open>10 ^ 12\<close> the result is
  \<open>1 Tbps\<close>; when \<open>s\<close> is at least \<open>10 ^ 9\<close> it is \<open>round(s / 10 ^ 9)\<close> followed by
  \<open>Gbps\<close>; else it is \<open>round(s / 10 ^ 6)\<close> followed by \<open>Mbps\<close>, where the division and
  \<open>round\<close> are those of Python. For an integer speed from 0 up to \<open>2 ^ 20 * 10 ^ 9\<close>
  bytes per second, and for every speed that the features give, this is the rendering over
  exact arithmetic with ties rounded to even. A speed of 12.5e9 gives \<open>100 Gbps\<close>, a
  speed of 125e9 gives \<open>1 Tbps\<close>, and the custom speed 0 gives \<open>0 Mbps\<close>.\<close>
theorem get_hr_speed_rendering:
  "(speed env i = Inr (None, w) \<longrightarrow> get_hr_speed env i = Inr ([], w))
   \<and> (speed env i = Inr (Some v, w) \<and> py_mul v 8 = Inr s \<and> py_eq s (10 ^ 12) \<longrightarrow>
        get_hr_speed env i = Inr (''1 Tbps'', w))
   \<and> (speed env i = Inr (Some v, w) \<and> py_mul v 8 = Inr s \<and> \<not> py_eq s (10 ^ 12) \<and>
       py_ge s (10 ^ 9) \<and> py_truediv s (10 ^ 9) = Inr q \<and> py_round q = Inr n \<longrightarrow>
        get_hr_speed env i = Inr (str_int n @ '' Gbps'', w))
   \<and> (speed env i = Inr (Some v, w) \<and> py_mul v 8 = Inr s \<and> \<not> py_eq s (10 ^ 12) \<and>
       \<not> py_ge s (10 ^ 9) \<and> py_truediv s (10 ^ 6) = Inr q \<and> py_round q = Inr n \<longrightarrow>
        get_hr_speed env i = Inr (str_int n @ '' Mbps'', w))
   \<and> (speed env i = Inr (Some (PyInt b), w) \<and> 0 \<le> b \<and> b < 2 ^ 20 * 10 ^ 9 \<longrightarrow>
        get_hr_speed env i = Inr (hr_speed_spec (of_int b), w))
   \<and> (custom_speed i = None \<and> speed env i = Inr (Some (PyFloat (Finite x)), w) \<longrightarrow>
        get_hr_speed env i = Inr (hr_speed_spec x, w))
   \<and> (speed env i = Inr (Some (PyFloat (Finite 12500000000)), w) \<longrightarrow>
        get_hr_speed env i = Inr (''100 Gbps'', w))
   \<and> (speed env i = Inr (Some (PyFloat (Finite 125000000000)), w) \<longrightarrow>
        get_hr_speed env i = Inr (''1 Tbps'', w))
   \<and> get_hr_speed env (set_custom_speed i (Some (PyInt 0))) = Inr (''0 Mbps'', [])"
proof -
  have p1: "get_hr_speed env i = Inr ([], w)" if "speed env i = Inr (None, w)"
    using that by (simp add: get_hr_speed_def bind_err_def)
  have p2: "get_hr_speed env i = Inr (''1 Tbps'', w)"
    if "speed env i = Inr (Some v, w) \<and> py_mul v 8 = Inr s \<and> py_eq s (10 ^ 12)"
    using that by (simp add: get_hr_speed_of_speed bind_err_def)
  have p3: "get_hr_speed env i = Inr (str_int n @ '' Gbps'', w)"
    if "speed env i = Inr (Some v, w) \<and> py_mul v 8 = Inr s \<and> \<not> py_eq s (10 ^ 12) \<and>
       py_ge s (10 ^ 9) \<and> py_truediv s (10 ^ 9) = Inr q \<and> py_round q = Inr n"
    using that by (simp add: get_hr_speed_of_speed bind_err_def)
  have p4: "get_hr_speed env i = Inr (str_int n @ '' Mbps'', w)"
    if "speed env i = Inr (Some v, w) \<and> py_mul v 8 = Inr s \<and> \<not> py_eq s (10 ^ 12) \<and>
       \<not> py_ge s (10 ^ 9) \<and> py_truediv s (10 ^ 6) = Inr q \<and> py_round q = Inr n"
    using that by (simp add: get_hr_speed_of_speed bind_err_def)
  have p5: "get_hr_speed env i = Inr (hr_speed_spec (of_int b), w)"
    if "speed env i = Inr (Some (PyInt b), w) \<and> 0 \<le> b \<and> b < 2 ^ 20 * 10 ^ 9"
    using that hr_int_exact[of env i b w] by blast
  have p6: "get_hr_speed env i = Inr (hr_speed_spec x, w)"
    if a: "custom_speed i = None \<and> speed env i = Inr (Some (PyFloat (Finite x)), w)"
  proof -
    from a features_speed_values[of i env "PyFloat (Finite x)" w]
    have "x \<in> {1250000000, 125000000, 12500000, 1250000, 125000000000, 12500000000,
               5000000000}" by simp
    with a show ?thesis using hr_float_value[of env i x w] by blast
  qed
  have p7: "get_hr_speed env i = Inr (''100 Gbps'', w)"
    if "speed env i = Inr (Some (PyFloat (Finite 12500000000)), w)"
    using hr_float_value[OF that] by (simp add: hr_spec_values)
  have p8: "get_hr_speed env i = Inr (''1 Tbps'', w)"
    if "speed env i = Inr (Some (PyFloat (Finite 125000000000)), w)"
    using hr_float_value[OF that] by (simp add: hr_spec_values)
  have p9: "get_hr_speed env (set_custom_speed i (Some (PyInt 0))) = Inr (''0 Mbps'', [])"
    using hr_int_exact[of env "set_custom_speed i (Some (PyInt 0))" 0 "[]"]
    by (simp add: set_custom_speed_def speed_custom hr_spec_values)
  from p1 p2 p3 p4 p5 p6 p7 p8 p9 show ?thesis by blast
qed


lemma str_int_2: "str_int 2 = ''2''"
  by code_simp

lemma hr_spec_half: "hr_speed_spec 312500000 = ''2 Gbps''"
proof -
  have "\<lfloor>5 / 2 :: rat\<rfloor> = 2" by (intro floor_unique) simp_all
  then show ?thesis by (simp add: hr_speed_spec_def round_half_even_def Let_def str_int_2)
qed

lemma speed_iface0: "speed env0 iface0 = Inr (None, [unknown_speed_warning iface0])"
  by (simp add: speed_def of_features_speed tier_a_speed feature_set_def is_v0x04_def
      iface0_def Interface_init_def sw0_def)

theorem get_hr_speed_rendering_witness:
  "speed env0 iface0 = Inr (None, [unknown_speed_warning iface0])
   \<and> get_hr_speed env0 iface0 = Inr ([], [unknown_speed_warning iface0])
   \<and> speed env0 (iface0\<lparr>custom_speed := Some (PyInt 125000000000)\<rparr>) =
       Inr (Some (PyInt 125000000000), [])
   \<and> py_mul (PyInt 125000000000) 8 = Inr (PyInt 1000000000000)
   \<and> py_eq (PyInt 1000000000000) (10 ^ 12)
   \<and> get_hr_speed env0 (iface0\<lparr>custom_speed := Some (PyInt 125000000000)\<rparr>) =
       Inr (''1 Tbps'', [])
   \<and> speed env0 (iface0\<lparr>custom_speed := Some (PyInt 250000000)\<rparr>) =
       Inr (Some (PyInt 250000000), [])
   \<and> py_mul (PyInt 250000000) 8 = Inr (PyInt 2000000000)
   \<and> \<not> py_eq (PyInt 2000000000) (10 ^ 12)
   \<and> py_ge (PyInt 2000000000) (10 ^ 9)
   \<and> py_truediv (PyInt 2000000000) (10 ^ 9) = Inr (Finite 2)
   \<and> py_round (Finite 2) = Inr 2
   \<and> get_hr_speed env0 (iface0\<lparr>custom_speed := Some (PyInt 250000000)\<rparr>) =
       Inr (''2 Gbps'', [])
   \<and> speed env0 (iface0\<lparr>custom_speed := Some (PyInt 0)\<rparr>) = Inr (Some (PyInt 0), [])
   \<and> py_mul (PyInt 0) 8 = Inr (PyInt 0)
   \<and> \<not> py_eq (PyInt 0) (10 ^ 12)
   \<and> \<not> py_ge (PyInt 0) (10 ^ 9)
   \<and> py_truediv (PyInt 0) (10 ^ 6) = Inr (Finite 0)
   \<and> py_round (Finite 0) = Inr 0
   \<and> get_hr_speed env0 (iface0\<lparr>custom_speed := Some (PyInt 0)\<rparr>) = Inr (''0 Mbps'', [])
   \<and> speed env0 (iface0\<lparr>custom_speed := Some (PyInt 312500000)\<rparr>) =
       Inr (Some (PyInt 312500000), [])
   \<and> (0::int) \<le> 312500000 \<and> (312500000::int) < 2 ^ 20 * 10 ^ 9
   \<and> get_hr_speed env0 (iface0\<lparr>custom_speed := Some (PyInt 312500000)\<rparr>) =
       Inr (''2 Gbps'', [])
   \<and> custom_speed (iface0\<lparr>features := Some 64\<rparr>) = None
   \<and> speed env0 (iface0\<lparr>features := Some 64\<rparr>) =
       Inr (Some (PyFloat (Finite 1250000000)), [])
   \<and> get_hr_speed env0 (iface0\<lparr>features := Some 64\<rparr>) = Inr (''10 Gbps'', [])
   \<and> speed env0 (iface0\<lparr>custom_speed := Some (PyFloat (Finite 12500000000))\<rparr>) =
       Inr (Some (PyFloat (Finite 12500000000)), [])
   \<and> get_hr_speed env0 (iface0\<lparr>custom_speed := Some (PyFloat (Finite 12500000000))\<rparr>) =
       Inr (''100 Gbps'', [])
   \<and> speed env0 (iface0\<lparr>custom_speed := Some (PyFloat (Finite 125000000000))\<rparr>) =
       Inr (Some (PyFloat (Finite 125000000000)), [])
   \<and> get_hr_speed env0 (iface0\<lparr>custom_speed := Some (PyFloat (Finite 125000000000))\<rparr>) =
       Inr (''1 Tbps'', [])"
proof -
  let ?t = "iface0\<lparr>custom_speed := Some (PyInt 125000000000)\<rparr>"
  let ?g = "iface0\<lparr>custom_speed := Some (PyInt 250000000)\<rparr>"
  let ?m = "iface0\<lparr>custom_speed := Some (PyInt 0)\<rparr>"
  let ?h = "iface0\<lparr>custom_speed := Some (PyInt 312500000)\<rparr>"
  let ?f = "iface0\<lparr>features := Some 64\<rparr>"
  let ?x = "iface0\<lparr>custom_speed := Some (PyFloat (Finite 12500000000))\<rparr>"
  let ?y = "iface0\<lparr>custom_speed := Some (PyFloat (Finite 125000000000))\<rparr>"
  have a1: "get_hr_speed env0 iface0 = Inr ([], [unknown_speed_warning iface0])"
    using get_hr_speed_rendering[of env0 iface0 "[unknown_speed_warning iface0]"] speed_iface0
    by blast
  have b0: "py_mul (PyInt 125000000000) 8 = Inr (PyInt 1000000000000)"
    "py_eq (PyInt 1000000000000) (10 ^ 12)" by simp_all
  have b1: "get_hr_speed env0 ?t = Inr (''1 Tbps'', [])"
    using get_hr_speed_rendering[of env0 ?t "[]" "PyInt 125000000000" "PyInt 1000000000000"]
      speed_custom[where env = env0 and i = iface0 and c = "PyInt 125000000000"] b0 by blast
  have c0: "py_mul (PyInt 250000000) 8 = Inr (PyInt 2000000000)"
    "\<not> py_eq (PyInt 2000000000) (10 ^ 12)" "py_ge (PyInt 2000000000) (10 ^ 9)"
    "py_round (Finite 2) = Inr 2"
    using round_half_even_numeral[of "num.Bit0 num.One"] by simp_all
  have c0': "py_truediv (PyInt 2000000000) (10 ^ 9) = Inr (Finite 2)"
    using int_truediv_exact[of 1000000000 2000000000 2] by simp
  have c1: "get_hr_speed env0 ?g = Inr (str_int 2 @ '' Gbps'', [])"
    using get_hr_speed_rendering[of env0 ?g "[]" "PyInt 250000000" "PyInt 2000000000" "Finite 2" 2]
      speed_custom[where env = env0 and i = iface0 and c = "PyInt 250000000"] c0 c0' by blast
  have d0: "py_mul (PyInt 0) 8 = Inr (PyInt 0)" "\<not> py_eq (PyInt 0) (10 ^ 12)"
    "\<not> py_ge (PyInt 0) (10 ^ 9)" "py_round (Finite 0) = Inr 0"
    using round_half_even_of_int[of 0] by simp_all
  have d0': "py_truediv (PyInt 0) (10 ^ 6) = Inr (Finite 0)"
    using int_truediv_exact[of 1000000 0 0] by simp
  have d1: "get_hr_speed env0 ?m = Inr (str_int 0 @ '' Mbps'', [])"
    using get_hr_speed_rendering[of env0 ?m "[]" "PyInt 0" "PyInt 0" "Finite 0" 0]
      speed_custom[where env = env0 and i = iface0 and c = "PyInt 0"] d0 d0' by blast
  have e0: "(0::int) \<le> 312500000" "(312500000::int) < 2 ^ 20 * 10 ^ 9" by simp_all
  have e1: "get_hr_speed env0 ?h = Inr (hr_speed_spec (of_int 312500000), [])"
    using get_hr_speed_rendering[of env0 ?h "[]" _ _ _ _ 312500000]
      speed_custom[where env = env0 and i = iface0 and c = "PyInt 312500000"] e0 by blast
  have f0: "custom_speed ?f = None" by (simp add: iface0_def Interface_init_def)
  have f0': "speed env0 ?f = Inr (Some (PyFloat (Finite 1250000000)), [])"
    using f0 by (simp add: speed_no_custom of_features_speed tier_a_10G feature_set_def
        env0_def pf01_def)
  have f1: "get_hr_speed env0 ?f = Inr (hr_speed_spec 1250000000, [])"
    using get_hr_speed_rendering[of env0 ?f "[]" _ _ _ _ _ 1250000000] f0 f0' by blast
  have x1: "get_hr_speed env0 ?x = Inr (''100 Gbps'', [])"
    using get_hr_speed_rendering[of env0 ?x "[]"]
      speed_custom[where env = env0 and i = iface0 and c = "PyFloat (Finite 12500000000)"] by blast
  have y1: "get_hr_speed env0 ?y = Inr (''1 Tbps'', [])"
    using get_hr_speed_rendering[of env0 ?y "[]"]
      speed_custom[where env = env0 and i = iface0 and c = "PyFloat (Finite 125000000000)"] by blast
  show ?thesis
    using speed_iface0 a1 b0 b1 c0 c0' c1 d0 d0' d1 e0 e1 f0 f0' f1 x1 y1
    by (simp add: speed_custom str_int_2 str_int_values hr_spec_half hr_spec_values)
qed

end
